theory Spec2Isabelle
  imports Main "HOL-Library.Multiset"
begin

section \<open>Severity model (security-assistant.data.ts)\<close>

text \<open>
  \<^verbatim>\<open>export type SeverityLevel = 'critical' | 'high' | 'moderate' | 'low' | 'info';\<close>
\<close>

datatype SeverityLevel = Critical | High | Moderate | Low | Info

text \<open>The string each level is in the source (its spelling in template literals and keys).\<close>

fun severity_name :: "SeverityLevel \<Rightarrow> string" where
  "severity_name Critical = ''critical''"
| "severity_name High = ''high''"
| "severity_name Moderate = ''moderate''"
| "severity_name Low = ''low''"
| "severity_name Info = ''info''"

definition SEVERITY_ORDER :: "SeverityLevel list" where
  "SEVERITY_ORDER = [Critical, High, Moderate, Low, Info]"

fun SEVERITY_SCORE :: "SeverityLevel \<Rightarrow> nat" where
  "SEVERITY_SCORE Critical = 100"
| "SEVERITY_SCORE High = 80"
| "SEVERITY_SCORE Moderate = 50"
| "SEVERITY_SCORE Low = 20"
| "SEVERITY_SCORE Info = 5"

text \<open>
  \<^verbatim>\<open>fixAvailable?: string | boolean\<close>: the field is absent (\<open>None\<close>), a boolean flag
  or a version string.
\<close>

datatype fix_shape = FixFlag bool | FixVersion string

text \<open>JavaScript truthiness of \<^verbatim>\<open>v.fixAvailable\<close>: \<^verbatim>\<open>undefined\<close>, \<^verbatim>\<open>false\<close> and
  the empty string are falsy.\<close>

fun truthy_fix :: "fix_shape option \<Rightarrow> bool" where
  "truthy_fix None = False"
| "truthy_fix (Some (FixFlag b)) = b"
| "truthy_fix (Some (FixVersion s)) = (s \<noteq> [])"

text \<open>What a template literal prints for a fix value.\<close>

fun fix_text :: "fix_shape \<Rightarrow> string" where
  "fix_text (FixFlag b) = (if b then ''true'' else ''false'')"
| "fix_text (FixVersion s) = s"

text \<open>
  \<^verbatim>\<open>interface Vulnerability\<close>. The fields \<^verbatim>\<open>id\<close> and \<^verbatim>\<open>range\<close> are
  \<open>id_v\<close> and \<open>range_v\<close> here (both names are HOL constants).
\<close>

record Vulnerability =
  name :: string
  severity :: SeverityLevel
  title :: "string option"
  id_v :: "string option"
  range_v :: "string option"
  fixAvailable :: "fix_shape option"
  via :: "string list option"
  isDirect :: "bool option"
  description :: "string option"

text \<open>
  \<^verbatim>\<open>Record<SeverityLevel, number>\<close>: one number of findings per level. A number of
  findings is a natural number, here and in every record below.
\<close>

record Counts =
  critical :: nat
  high :: nat
  moderate :: nat
  low :: nat
  info :: nat

definition zero_counts :: Counts where
  "zero_counts = \<lparr>critical = 0, high = 0, moderate = 0, low = 0, info = 0\<rparr>"

fun count_of :: "Counts \<Rightarrow> SeverityLevel \<Rightarrow> nat" where
  "count_of c Critical = critical c"
| "count_of c High = high c"
| "count_of c Moderate = moderate c"
| "count_of c Low = low c"
| "count_of c Info = info c"

text \<open>\<^verbatim>\<open>counts[sev]++\<close>\<close>

fun incr_count :: "Counts \<Rightarrow> SeverityLevel \<Rightarrow> Counts" where
  "incr_count c Critical = c\<lparr>critical := critical c + 1\<rparr>"
| "incr_count c High = c\<lparr>high := high c + 1\<rparr>"
| "incr_count c Moderate = c\<lparr>moderate := moderate c + 1\<rparr>"
| "incr_count c Low = c\<lparr>low := low c + 1\<rparr>"
| "incr_count c Info = c\<lparr>info := info c + 1\<rparr>"

record AuditSummary =
  counts :: Counts
  totalVulnerabilities :: nat
  hasCriticalOrHigh :: bool
  vulnerabilities :: "Vulnerability list"

section \<open>Library functions of JavaScript used by the service\<close>

text \<open>
  \<^verbatim>\<open>Array.prototype.sort(cmp)\<close> is a stable sort (ECMAScript 2019). It is modelled as
  a stable insertion sort: an element is placed before the first later element that
  the comparator does not put in front of it.
\<close>

fun insert_sorted :: "('a \<Rightarrow> 'a \<Rightarrow> int) \<Rightarrow> 'a \<Rightarrow> 'a list \<Rightarrow> 'a list" where
  "insert_sorted cmp x [] = [x]"
| "insert_sorted cmp x (y # ys) =
     (if cmp x y \<le> 0 then x # y # ys else y # insert_sorted cmp x ys)"

definition js_sort :: "('a \<Rightarrow> 'a \<Rightarrow> int) \<Rightarrow> 'a list \<Rightarrow> 'a list" where
  "js_sort cmp xs = foldr (insert_sorted cmp) xs []"

text \<open>Decimal rendering of a non-negative integer, as a template literal prints it.\<close>

definition digit_char :: "nat \<Rightarrow> char" where
  "digit_char d = ''0123456789'' ! d"

fun string_of_nat :: "nat \<Rightarrow> string" where
  "string_of_nat n =
     (if n < 10 then [digit_char n] else string_of_nat (n div 10) @ [digit_char (n mod 10)])"

declare string_of_nat.simps [simp del]

section \<open>Scanner output shapes (security-assistant.service.ts)\<close>

text \<open>
  The reports are read with \<^verbatim>\<open>JSON.parse(out) as NpmAuditJson\<close> (and
  \<^verbatim>\<open>as PipAuditJson\<close>); the model takes them at the declared interface types. An
  optional field is an \<open>option\<close>. \<^verbatim>\<open>vulns\<close> is optional here because the code guards it
  with \<^verbatim>\<open>dep.vulns ?? []\<close>.
\<close>

datatype via_item = ViaText string | ViaObject "string option"

datatype via_shape = ViaArray "via_item list" | ViaString string

datatype fix_raw =
    RawFixObject "string option" "string option"
  | RawFixBool bool
  | RawFixString string

record NpmAuditVuln =
  nv_severity :: "string option"
  nv_via :: "via_shape option"
  nv_isDirect :: "bool option"
  nv_effects :: "string list option"
  nv_range :: "string option"
  nv_fixAvailable :: "fix_raw option"

record MetaCounts =
  m_info :: "nat option"
  m_low :: "nat option"
  m_moderate :: "nat option"
  m_high :: "nat option"
  m_critical :: "nat option"

record Metadata =
  meta_vulnerabilities :: "MetaCounts option"

text \<open>
  \<^verbatim>\<open>vulnerabilities?: Record<string, NpmAuditVuln>\<close> is the list of its entries in the
  order \<^verbatim>\<open>Object.entries\<close> enumerates them.
\<close>

record NpmAuditJson =
  auditReportVersion :: "nat option"
  npm_vulnerabilities :: "(string \<times> NpmAuditVuln) list option"
  metadata :: "Metadata option"

record PipAuditVuln =
  pv_id :: "string option"
  fix_versions :: "string list option"
  pv_description :: "string option"
  known_severity :: "string option"

record PipAuditDep =
  dep_name :: string
  dep_version :: string
  vulns :: "PipAuditVuln list option"

text \<open>
  \<^verbatim>\<open>type PipAuditJson = PipAuditDep[] | { version?, dependencies?, vulnerabilities? }\<close>
\<close>

datatype PipAuditJson =
    PipArray "PipAuditDep list"
  | PipObject "nat option" "PipAuditDep list option" "PipAuditDep list option"

datatype ProjectType = Node | Python

text \<open>
  \<^verbatim>\<open>String.prototype.toLowerCase\<close> on the ASCII letters; every other byte is kept.
  Strings are byte strings here, so \<^verbatim>\<open>slice(0, 80)\<close> below is \<open>take 80\<close>.
\<close>

definition lower_char :: "char \<Rightarrow> char" where
  "lower_char c =
     (case map_of (zip ''ABCDEFGHIJKLMNOPQRSTUVWXYZ'' ''abcdefghijklmnopqrstuvwxyz'') c of
        Some d \<Rightarrow> d
      | None \<Rightarrow> c)"

definition toLowerCase :: "string \<Rightarrow> string" where
  "toLowerCase s = map lower_char s"

subsection \<open>normalizePipAuditToSummary\<close>

text \<open>
  A property read \<^verbatim>\<open>severityMap[sevRaw]\<close> on the object literal finds the six own keys
  and, as for every object literal, the properties inherited from
  \<^verbatim>\<open>Object.prototype\<close>. An inherited property is a function or an object: truthy, and
  not a severity level.
\<close>

datatype map_value = Level SeverityLevel | Inherited

definition object_prototype_keys :: "string list" where
  "object_prototype_keys =
     [''constructor'', ''__proto__'', ''hasOwnProperty'', ''isPrototypeOf'',
      ''propertyIsEnumerable'', ''toString'', ''toLocaleString'', ''valueOf'',
      ''__defineGetter__'', ''__defineSetter__'', ''__lookupGetter__'', ''__lookupSetter__'']"

definition severityMap :: "string \<Rightarrow> map_value option" where
  "severityMap k =
     (if k = ''critical'' then Some (Level Critical)
      else if k = ''high'' then Some (Level High)
      else if k = ''medium'' then Some (Level Moderate)
      else if k = ''moderate'' then Some (Level Moderate)
      else if k = ''low'' then Some (Level Low)
      else if k = ''info'' then Some (Level Info)
      else if k \<in> set object_prototype_keys then Some Inherited
      else None)"

text \<open>
  \<^verbatim>\<open>const sev = (sevRaw && severityMap[sevRaw]) ? severityMap[sevRaw] : 'high'\<close>
\<close>

definition pip_severity :: "PipAuditVuln \<Rightarrow> map_value" where
  "pip_severity v =
     (case map_option toLowerCase (known_severity v) of
        None \<Rightarrow> Level High
      | Some sevRaw \<Rightarrow>
          if sevRaw \<noteq> [] then (case severityMap sevRaw of Some m \<Rightarrow> m | None \<Rightarrow> Level High)
          else Level High)"

text \<open>The body of the inner loop: one finding \<open>v\<close> of the dependency \<open>dep\<close>.\<close>

definition pip_finding :: "PipAuditDep \<Rightarrow> Counts \<times> Vulnerability list \<Rightarrow> PipAuditVuln
    \<Rightarrow> Counts \<times> Vulnerability list" where
  "pip_finding dep acc v =
     (case pip_severity v of
        Inherited \<Rightarrow> acc
      | Level sev \<Rightarrow>
          if sev \<notin> set SEVERITY_ORDER then acc
          else
            (incr_count (fst acc) sev,
             snd acc @
               [\<lparr>name = dep_name dep,
                 severity = sev,
                 title = (case pv_id v of Some i \<Rightarrow> Some i
                          | None \<Rightarrow> map_option (take 80) (pv_description v)),
                 id_v = pv_id v,
                 range_v = Some (dep_version dep),
                 fixAvailable =
                   Some (case fix_versions v of
                           Some (fixVer # _) \<Rightarrow> FixVersion fixVer
                         | _ \<Rightarrow> FixFlag False),
                 via = None,
                 isDirect = Some True,
                 description = pv_description v\<rparr>]))"

definition pip_dep :: "Counts \<times> Vulnerability list \<Rightarrow> PipAuditDep \<Rightarrow> Counts \<times> Vulnerability list" where
  "pip_dep acc dep =
     foldl (pip_finding dep) acc (case vulns dep of Some vs \<Rightarrow> vs | None \<Rightarrow> [])"

definition pip_deps :: "PipAuditJson \<Rightarrow> PipAuditDep list" where
  "pip_deps audit =
     (case audit of
        PipArray ds \<Rightarrow> ds
      | PipObject _ (Some ds) _ \<Rightarrow> ds
      | PipObject _ None (Some ds) \<Rightarrow> ds
      | PipObject _ None None \<Rightarrow> [])"

definition normalizePipAuditToSummary :: "PipAuditJson \<Rightarrow> AuditSummary" where
  "normalizePipAuditToSummary audit =
     (let r = foldl pip_dep (zero_counts, []) (pip_deps audit);
          counts = fst r;
          vulnerabilities = snd r
      in \<lparr>counts = counts,
          totalVulnerabilities = length vulnerabilities,
          hasCriticalOrHigh = (critical counts > 0 \<or> high counts > 0),
          vulnerabilities = vulnerabilities\<rparr>)"

subsection \<open>The project directory and the external scanners\<close>

text \<open>
  What \<^verbatim>\<open>execSync\<close> did: it returned the standard output, or it threw an error whose
  \<^verbatim>\<open>stdout\<close> may be set.
\<close>

datatype exec_result = Completed string | Threw "string option"

text \<open>
  Everything \<^verbatim>\<open>getAuditSummary(projectRoot)\<close> reads from outside: which manifest
  files \<^verbatim>\<open>existsSync\<close> finds in the project root, what each scanner command did, and
  \<^verbatim>\<open>JSON.parse\<close> at the two report types (\<open>None\<close> when it throws).
\<close>

record project_env =
  has_package_json :: bool
  has_requirements_txt :: bool
  has_pyproject_toml :: bool
  has_Pipfile :: bool
  npm_audit :: exec_result
  pip_audit :: exec_result
  python_m_pip_audit :: exec_result
  parse_npm :: "string \<Rightarrow> NpmAuditJson option"
  parse_pip :: "string \<Rightarrow> PipAuditJson option"

datatype error =
    InvalidGitHubUrl string
  | InvalidGitHubRepo string
  | InvalidGitHubRepoSpec string
  | PythonAuditFailed

definition detectProjectType :: "project_env \<Rightarrow> ProjectType option" where
  "detectProjectType env =
     (if has_package_json env then Some Node
      else if has_requirements_txt env \<or> has_pyproject_toml env \<or> has_Pipfile env then Some Python
      else None)"

text \<open>The local function \<^verbatim>\<open>run\<close> of \<^verbatim>\<open>runPipAudit\<close>: \<^verbatim>\<open>raw ?? null\<close> on a throw.\<close>

definition run_cmd :: "exec_result \<Rightarrow> string option" where
  "run_cmd r = (case r of Completed out \<Rightarrow> Some out | Threw raw \<Rightarrow> raw)"

definition runPipAudit :: "project_env \<Rightarrow> PipAuditJson option" where
  "runPipAudit env =
     (if \<not> has_requirements_txt env \<and> \<not> has_pyproject_toml env then None
      else
        (let rawOut = run_cmd (pip_audit env);
             rawOut = (if rawOut = None then run_cmd (python_m_pip_audit env) else rawOut)
         in case rawOut of None \<Rightarrow> None | Some out \<Rightarrow> parse_pip env out))"

text \<open>
  \<^verbatim>\<open>runAudit\<close>: a \<^verbatim>\<open>JSON.parse\<close> that throws inside the \<^verbatim>\<open>try\<close> is caught by the
  same \<^verbatim>\<open>catch\<close>; a \<^verbatim>\<open>SyntaxError\<close> carries no \<^verbatim>\<open>stdout\<close>, so the result is
  \<^verbatim>\<open>null\<close>.
\<close>

definition runAudit :: "project_env \<Rightarrow> NpmAuditJson option" where
  "runAudit env =
     (if \<not> has_package_json env then None
      else
        (case npm_audit env of
           Completed out \<Rightarrow> parse_npm env out
         | Threw None \<Rightarrow> None
         | Threw (Some raw) \<Rightarrow> if raw \<noteq> [] then parse_npm env raw else None))"

subsection \<open>getAuditSummary\<close>

text \<open>\<^verbatim>\<open>SEVERITY_ORDER.includes(severity)\<close> on a string: the level it spells, if any.\<close>

definition level_of_name :: "string \<Rightarrow> SeverityLevel option" where
  "level_of_name s = find (\<lambda>l. severity_name l = s) SEVERITY_ORDER"

text \<open>\<^verbatim>\<open>counts[s] = meta[s] ?? 0\<close> for each of the five keys of \<^verbatim>\<open>counts\<close>.\<close>

definition counts_of_meta :: "MetaCounts \<Rightarrow> Counts" where
  "counts_of_meta m =
     \<lparr>critical = (case m_critical m of Some n \<Rightarrow> n | None \<Rightarrow> 0),
      high = (case m_high m of Some n \<Rightarrow> n | None \<Rightarrow> 0),
      moderate = (case m_moderate m of Some n \<Rightarrow> n | None \<Rightarrow> 0),
      low = (case m_low m of Some n \<Rightarrow> n | None \<Rightarrow> 0),
      info = (case m_info m of Some n \<Rightarrow> n | None \<Rightarrow> 0)\<rparr>"

definition empty_meta :: MetaCounts where
  "empty_meta = \<lparr>m_info = None, m_low = None, m_moderate = None, m_high = None, m_critical = None\<rparr>"

definition via_title :: "via_item \<Rightarrow> string option" where
  "via_title x = (case x of ViaText s \<Rightarrow> Some s | ViaObject t \<Rightarrow> t)"

text \<open>The body of the loop over \<^verbatim>\<open>Object.entries(audit.vulnerabilities)\<close>.\<close>

definition npm_finding :: "Vulnerability list \<Rightarrow> string \<times> NpmAuditVuln \<Rightarrow> Vulnerability list" where
  "npm_finding acc entry =
     (let name = fst entry; v = snd entry;
          severity = (case nv_severity v of Some s \<Rightarrow> s | None \<Rightarrow> ''moderate'')
      in case level_of_name severity of
           None \<Rightarrow> acc
         | Some sev \<Rightarrow>
             (let via = (case nv_via v of
                           Some (ViaArray xs) \<Rightarrow> xs
                         | Some (ViaString s) \<Rightarrow> if s \<noteq> [] then [ViaText s] else []
                         | None \<Rightarrow> []);
                  firstVia = (case via of [] \<Rightarrow> None | x # _ \<Rightarrow> via_title x);
                  fixVersion =
                    (case nv_fixAvailable v of
                       Some (RawFixObject _ (Some ver)) \<Rightarrow>
                         if ver \<noteq> [] then Some (FixVersion ver) else None
                     | Some (RawFixObject _ None) \<Rightarrow> None
                     | Some (RawFixBool b) \<Rightarrow> Some (FixFlag b)
                     | Some (RawFixString s) \<Rightarrow> Some (FixVersion s)
                     | None \<Rightarrow> None);
                  viaStrings =
                    (case nv_via v of
                       Some (ViaArray xs) \<Rightarrow>
                         Some (map (\<lambda>x. case via_title x of Some t \<Rightarrow> t | None \<Rightarrow> '''') xs)
                     | _ \<Rightarrow> None)
              in acc @
                   [\<lparr>name = name,
                     severity = sev,
                     title = firstVia,
                     id_v = None,
                     range_v = nv_range v,
                     fixAvailable = fixVersion,
                     via = (case viaStrings of
                              Some l \<Rightarrow> if l \<noteq> [] then Some l else None
                            | None \<Rightarrow> None),
                     isDirect = nv_isDirect v,
                     description =
                       (case firstVia of
                          Some f \<Rightarrow> if f \<noteq> [] then Some (name @ '': '' @ f) else None
                        | None \<Rightarrow> None)\<rparr>]))"

definition empty_summary :: AuditSummary where
  "empty_summary =
     \<lparr>counts = zero_counts, totalVulnerabilities = 0, hasCriticalOrHigh = False,
      vulnerabilities = []\<rparr>"

definition getAuditSummary :: "project_env \<Rightarrow> error + AuditSummary" where
  "getAuditSummary env =
     (let projectType = detectProjectType env
      in if projectType = Some Python then
           (case runPipAudit env of
              Some pipAudit \<Rightarrow> Inr (normalizePipAuditToSummary pipAudit)
            | None \<Rightarrow> Inl PythonAuditFailed)
         else if projectType \<noteq> Some Node then Inr empty_summary
         else
           (case runAudit env of
              None \<Rightarrow> Inr empty_summary
            | Some audit \<Rightarrow>
                (case npm_vulnerabilities audit of
                   None \<Rightarrow> Inr empty_summary
                 | Some entries \<Rightarrow>
                     (let meta = (case metadata audit of
                                    None \<Rightarrow> empty_meta
                                  | Some md \<Rightarrow>
                                      (case meta_vulnerabilities md of
                                         None \<Rightarrow> empty_meta
                                       | Some m \<Rightarrow> m));
                          counts = counts_of_meta meta;
                          vulnerabilities = foldl npm_finding [] entries
                      in Inr \<lparr>counts = counts,
                              totalVulnerabilities = length vulnerabilities,
                              hasCriticalOrHigh = (critical counts > 0 \<or> high counts > 0),
                              vulnerabilities = vulnerabilities\<rparr>))))"

section \<open>Decision derivation (security-assistant.service.ts)\<close>

subsection \<open>getHighestRiskDependency\<close>

text \<open>
  The comparator of both sorts of the service:
  \<^verbatim>\<open>(a, b) => (SEVERITY_SCORE[b.severity] ?? 0) - (SEVERITY_SCORE[a.severity] ?? 0)\<close>.
\<close>

definition by_score_desc :: "SeverityLevel \<Rightarrow> SeverityLevel \<Rightarrow> int" where
  "by_score_desc a b = int (SEVERITY_SCORE b) - int (SEVERITY_SCORE a)"

record HighestRisk =
  highest :: "Vulnerability option"
  hr_summary :: string
  allBySeverity :: "Vulnerability list"

text \<open>
  The body of \<^verbatim>\<open>getHighestRiskDependency\<close> after the summary has been obtained.
  \<^verbatim>\<open>sorted[0] ?? null\<close> is the head of the sorted list, or \<open>None\<close>.
\<close>

definition highestRiskOf :: "AuditSummary \<Rightarrow> HighestRisk" where
  "highestRiskOf summary =
     (let sorted = js_sort (\<lambda>a b. by_score_desc (severity a) (severity b)) (vulnerabilities summary);
          highest = (case sorted of [] \<Rightarrow> None | h # _ \<Rightarrow> Some h);
          summaryText =
            (case highest of
               None \<Rightarrow> ''No vulnerabilities found in this codebase.''
             | Some h \<Rightarrow>
                 ''Highest risk: **'' @ name h @ ''** ('' @ severity_name (severity h) @ ''). ''
                 @ (case title h of Some t \<Rightarrow> t
                    | None \<Rightarrow> (case description h of Some d \<Rightarrow> d | None \<Rightarrow> ''No description.''))
                 @ (case fixAvailable h of
                      Some f \<Rightarrow>
                        if truthy_fix (Some f) then '' Fix available: '' @ fix_text f @ ''.'' else ''''
                    | None \<Rightarrow> ''''))
      in \<lparr>highest = highest, hr_summary = summaryText, allBySeverity = sorted\<rparr>)"

text \<open>
  \<^verbatim>\<open>getHighestRiskDependency(projectRoot)\<close>: an error of \<^verbatim>\<open>getAuditSummary\<close>
  propagates.
\<close>

definition getHighestRiskDependency :: "project_env \<Rightarrow> error + HighestRisk" where
  "getHighestRiskDependency env =
     (case getAuditSummary env of Inl e \<Rightarrow> Inl e | Inr summary \<Rightarrow> Inr (highestRiskOf summary))"

subsection \<open>getShipReadiness\<close>

text \<open>The fields \<^verbatim>\<open>critical\<close>, \<^verbatim>\<open>high\<close>, \<^verbatim>\<open>moderate\<close> and \<^verbatim>\<open>low\<close> of
  \<^verbatim>\<open>interface ShipReadiness\<close> carry the prefix \<open>sr_\<close>.\<close>

record ShipReadiness =
  safeToShip :: bool
  reason :: string
  sr_critical :: nat
  sr_high :: nat
  sr_moderate :: nat
  sr_low :: nat
  recommendation :: "string option"

definition reason_none :: string where
  "reason_none =
     ''No known vulnerabilities were found in your dependencies. It is reasonable to ship.''"

definition reason_minor :: "nat \<Rightarrow> nat \<Rightarrow> string" where
  "reason_minor m l =
     ''There are no critical or high severity issues. You have '' @ string_of_nat m
     @ '' moderate and '' @ string_of_nat l
     @ '' low severity findings. Shipping is acceptable from a severity standpoint, but consider scheduling fixes.''"

definition reason_blocking :: "nat \<Rightarrow> nat \<Rightarrow> string" where
  "reason_blocking c h =
     ''There are '' @ string_of_nat c @ '' critical and '' @ string_of_nat h
     @ '' high severity vulnerabilities. Do not ship until these are addressed.''"

text \<open>The body of \<^verbatim>\<open>getShipReadiness\<close> after the summary has been obtained.\<close>

definition shipReadinessOf :: "AuditSummary \<Rightarrow> ShipReadiness" where
  "shipReadinessOf summary =
     (let critical = critical (counts summary);
          high = high (counts summary);
          moderate = moderate (counts summary);
          low = low (counts summary);
          safeToShip = (\<not> hasCriticalOrHigh summary);
          rr =
            (if safeToShip \<and> totalVulnerabilities summary = 0 then
               (reason_none, ''Keep running security checks regularly.'')
             else if safeToShip then
               (reason_minor moderate low,
                ''Run the \"suggest_upgrades\" tool to get concrete upgrade steps for moderate/low issues.'')
             else
               (reason_blocking critical high,
                ''Use \"suggest_upgrades\" to get exact upgrade commands, then run them and re-check with \"is_app_safe_to_ship\".''))
      in \<lparr>safeToShip = safeToShip, reason = fst rr, sr_critical = critical, sr_high = high,
          sr_moderate = moderate, sr_low = low, recommendation = Some (snd rr)\<rparr>)"

definition getShipReadiness :: "project_env \<Rightarrow> error + ShipReadiness" where
  "getShipReadiness env =
     (case getAuditSummary env of Inl e \<Rightarrow> Inl e | Inr summary \<Rightarrow> Inr (shipReadinessOf summary))"

subsection \<open>getUpgradeSuggestions\<close>

text \<open>The fields \<^verbatim>\<open>current\<close> and \<^verbatim>\<open>severity\<close> of \<^verbatim>\<open>interface UpgradeSuggestion\<close>
  carry the suffix \<open>_u\<close>.\<close>

record UpgradeSuggestion =
  package :: string
  current_u :: string
  target :: string
  severity_u :: SeverityLevel
  action :: string
  isSemverCompatible :: "bool option"

text \<open>The suggestion that the loop pushes for a finding \<open>v\<close>.\<close>

definition suggestion_of :: "bool \<Rightarrow> Vulnerability \<Rightarrow> UpgradeSuggestion" where
  "suggestion_of isPip v =
     (let target = (case fixAvailable v of Some (FixVersion s) \<Rightarrow> s | _ \<Rightarrow> ''latest'');
          action = (if isPip then ''pip install '' @ name v @ ''=='' @ target
                    else ''npm install '' @ name v @ ''@'' @ target)
      in \<lparr>package = name v,
          current_u = (case range_v v of Some r \<Rightarrow> r | None \<Rightarrow> ''unknown''),
          target = target,
          severity_u = severity v,
          action = action,
          isSemverCompatible = None\<rparr>)"

text \<open>
  The body of the loop over \<^verbatim>\<open>audit.vulnerabilities\<close>; the state is the list
  \<^verbatim>\<open>suggestions\<close> and the set \<^verbatim>\<open>seen\<close>.
\<close>

definition suggest_step :: "bool \<Rightarrow> UpgradeSuggestion list \<times> string set \<Rightarrow> Vulnerability
    \<Rightarrow> UpgradeSuggestion list \<times> string set" where
  "suggest_step isPip st v =
     (if \<not> truthy_fix (fixAvailable v) \<or> name v \<in> snd st then st
      else (fst st @ [suggestion_of isPip v], insert (name v) (snd st)))"

record UpgradeResult =
  suggestions :: "UpgradeSuggestion list"
  up_summary :: string

definition upgradeSuggestionsOf :: "bool \<Rightarrow> AuditSummary \<Rightarrow> UpgradeResult" where
  "upgradeSuggestionsOf isPip audit =
     (let collected = fst (foldl (suggest_step isPip) ([], {}) (vulnerabilities audit));
          suggestions = js_sort (\<lambda>a b. by_score_desc (severity_u a) (severity_u b)) collected;
          summary =
            (if length suggestions = 0 then
               ''No upgrade fixes available from the audit (or no vulnerabilities). Consider updating packages manually or checking for major-version upgrades.''
             else ''Apply these '' @ string_of_nat (length suggestions)
                  @ '' upgrade(s) in order of priority (critical/high first):'')
      in \<lparr>suggestions = suggestions, up_summary = summary\<rparr>)"

definition getUpgradeSuggestions :: "project_env \<Rightarrow> error + UpgradeResult" where
  "getUpgradeSuggestions env =
     (let projectType = detectProjectType env
      in case getAuditSummary env of
           Inl e \<Rightarrow> Inl e
         | Inr audit \<Rightarrow> Inr (upgradeSuggestionsOf (projectType = Some Python) audit))"

section \<open>Target resolution\<close>

subsection \<open>String functions of JavaScript\<close>

text \<open>\<^verbatim>\<open>String.prototype.trim\<close>, on the ASCII white space characters.\<close>

definition is_space :: "char \<Rightarrow> bool" where
  "is_space c = (c \<in> set [CHR '' '', CHR 0x09, CHR 0x0A, CHR 0x0B, CHR 0x0C, CHR 0x0D])"

definition trim :: "string \<Rightarrow> string" where
  "trim s = rev (dropWhile is_space (rev (dropWhile is_space s)))"

definition starts_with :: "string \<Rightarrow> string \<Rightarrow> bool" where
  "starts_with s p = (take (length p) s = p)"

definition ends_with :: "string \<Rightarrow> string \<Rightarrow> bool" where
  "ends_with s p = (length p \<le> length s \<and> drop (length s - length p) s = p)"

text \<open>\<^verbatim>\<open>s.includes(p)\<close>\<close>

fun str_includes :: "string \<Rightarrow> string \<Rightarrow> bool" where
  "str_includes [] p = (p = [])"
| "str_includes (c # cs) p = (starts_with (c # cs) p \<or> str_includes cs p)"

text \<open>\<^verbatim>\<open>s.split(d)\<close> for a one-character separator.\<close>

fun split_on :: "char \<Rightarrow> string \<Rightarrow> string list" where
  "split_on d [] = [[]]"
| "split_on d (c # cs) =
     (if c = d then [] # split_on d cs
      else (case split_on d cs of [] \<Rightarrow> [[c]] | p # ps \<Rightarrow> (c # p) # ps))"

text \<open>\<^verbatim>\<open>s.replace(/\.git$/, '')\<close>\<close>

definition strip_dot_git :: "string \<Rightarrow> string" where
  "strip_dot_git s = (if ends_with s ''.git'' then take (length s - 4) s else s)"

text \<open>\<^verbatim>\<open>s.replace(/^\/|\/$/g, '')\<close>: one leading slash and one trailing slash are removed.\<close>

definition strip_slashes :: "string \<Rightarrow> string" where
  "strip_slashes s =
     (let s1 = (case s of c # cs \<Rightarrow> if c = CHR ''/'' then cs else s | [] \<Rightarrow> s)
      in if s1 \<noteq> [] \<and> last s1 = CHR ''/'' then butlast s1 else s1)"

subsection \<open>parseGitHubRepo\<close>

text \<open>The character classes \<^verbatim>\<open>\w\<close> and \<^verbatim>\<open>[-.\w]\<close> of the regular expression.\<close>

definition is_word_char :: "char \<Rightarrow> bool" where
  "is_word_char c =
     (c \<in> set ''ABCDEFGHIJKLMNOPQRSTUVWXYZabcdefghijklmnopqrstuvwxyz0123456789_'')"

definition is_name_char :: "char \<Rightarrow> bool" where
  "is_name_char c = (is_word_char c \<or> c = CHR ''-'' \<or> c = CHR ''.'')"

text \<open>
  The group \<^verbatim>\<open>(\w(?:[-.\w])*)\<close> at the start of a string: the captured text and the
  rest. The star is greedy and takes the whole run of name characters.
\<close>

definition match_name :: "string \<Rightarrow> (string \<times> string) option" where
  "match_name s =
     (case s of
        [] \<Rightarrow> None
      | c # cs \<Rightarrow>
          if is_word_char c then Some (c # takeWhile is_name_char cs, dropWhile is_name_char cs)
          else None)"

text \<open>
  \<^verbatim>\<open>/github\.com[/:](\w(?:[-.\w])*)\/(\w(?:[-.\w])*)/\<close> matched at the start of a
  string. The owner group must be followed by a slash; a shorter owner cannot help, since
  the character after it would be a name character and not the slash.
\<close>

definition match_here :: "string \<Rightarrow> (string \<times> string) option" where
  "match_here s =
     (if starts_with s ''github.com'' then
        (case drop 10 s of
           [] \<Rightarrow> None
         | sep # r \<Rightarrow>
             if sep = CHR ''/'' \<or> sep = CHR '':'' then
               (case match_name r of
                  None \<Rightarrow> None
                | Some (owner, r1) \<Rightarrow>
                    (case r1 of
                       [] \<Rightarrow> None
                     | c # r2 \<Rightarrow>
                         if c = CHR ''/'' then
                           (case match_name r2 of
                              None \<Rightarrow> None
                            | Some (repo, _) \<Rightarrow> Some (owner, repo))
                         else None))
             else None)
      else None)"

text \<open>\<^verbatim>\<open>trimmed.match(re)\<close>: the leftmost position where the expression matches.\<close>

fun regex_match :: "string \<Rightarrow> (string \<times> string) option" where
  "regex_match [] = match_here []"
| "regex_match (c # cs) =
     (case match_here (c # cs) of Some m \<Rightarrow> Some m | None \<Rightarrow> regex_match cs)"

definition parseGitHubRepo :: "string \<Rightarrow> error + (string \<times> string)" where
  "parseGitHubRepo spec =
     (let trimmed = strip_dot_git (trim spec)
      in if str_includes trimmed ''github.com/'' then
           (case regex_match trimmed of
              None \<Rightarrow> Inl (InvalidGitHubUrl spec)
            | Some (owner, repo) \<Rightarrow> Inr (owner, repo))
         else if str_includes trimmed ''/'' then
           (case map trim (split_on (CHR ''/'') trimmed) of
              owner # repo # _ \<Rightarrow>
                if owner = [] \<or> repo = [] then Inl (InvalidGitHubRepo spec) else Inr (owner, repo)
            | _ \<Rightarrow> Inl (InvalidGitHubRepo spec))
         else Inl (InvalidGitHubRepoSpec spec))"

subsection \<open>getRepoId\<close>

record repo_options =
  githubRepo :: "string option"
  ref :: "string option"
  subpath :: "string option"
  projectPath :: "string option"

text \<open>
  An optional string in a condition: the string when it is present and not empty
  (\<^verbatim>\<open>undefined\<close> and \<^verbatim>\<open>''\<close> are falsy).
\<close>

definition truthy :: "string option \<Rightarrow> string option" where
  "truthy s = (case s of None \<Rightarrow> None | Some t \<Rightarrow> if t \<noteq> [] then Some t else None)"

text \<open>
  \<^verbatim>\<open>getRepoId\<close>. The working directory \<^verbatim>\<open>process.cwd()\<close> and \<^verbatim>\<open>path.resolve\<close>
  of Node are parameters.
\<close>

definition getRepoId :: "string \<Rightarrow> (string \<Rightarrow> string) \<Rightarrow> repo_options \<Rightarrow> error + string" where
  "getRepoId cwd resolve options =
     (case truthy (githubRepo options) of
        Some spec \<Rightarrow>
          (case parseGitHubRepo spec of
             Inl e \<Rightarrow> Inl e
           | Inr (owner, repo) \<Rightarrow>
               (let base = owner @ ''/'' @ repo
                in case truthy (map_option strip_slashes (subpath options)) of
                     Some sub \<Rightarrow> Inr (base @ '':'' @ sub)
                   | None \<Rightarrow> Inr base))
      | None \<Rightarrow>
          (let path = (case truthy (projectPath options) of
                         Some p \<Rightarrow> resolve p
                       | None \<Rightarrow> cwd)
           in Inr (''local:'' @ path)))"

section \<open>Scan history and comparator\<close>

definition MAX_SCANS_PER_REPO :: nat where
  "MAX_SCANS_PER_REPO = 20"

text \<open>The fields \<^verbatim>\<open>id\<close>, \<^verbatim>\<open>repoId\<close>, \<^verbatim>\<open>ref\<close>, \<^verbatim>\<open>subpath\<close> and \<^verbatim>\<open>summary\<close> of
  \<^verbatim>\<open>interface SavedScan\<close> carry the prefix \<open>scan_\<close>.\<close>

record SavedScan =
  scan_id :: string
  scan_repoId :: string
  scan_ref :: "string option"
  scan_subpath :: "string option"
  scannedAt :: string
  scan_summary :: AuditSummary
  projectType :: "ProjectType option"

record Snapshot =
  snap_scannedAt :: string
  snap_counts :: Counts
  snap_totalVulnerabilities :: nat

record CompareScansResult =
  res_repoId :: string
  baseline :: Snapshot
  current :: Snapshot
  fixed :: "Vulnerability list"
  introduced :: "Vulnerability list"
  summary :: string
  isFirstScan :: "bool option"

record compare_options =
  opt_ref :: "string option"
  opt_subpath :: "string option"
  opt_projectType :: "ProjectType option"

text \<open>\<^verbatim>\<open>private static scanStore = new Map<string, SavedScan[]>()\<close>\<close>

type_synonym scanStore = "string \<rightharpoonup> SavedScan list"

text \<open>\<^verbatim>\<open>xs.slice(-n)\<close> for \<open>n > 0\<close>: the last \<open>n\<close> elements.\<close>

definition slice_last :: "nat \<Rightarrow> 'a list \<Rightarrow> 'a list" where
  "slice_last n xs = drop (length xs - n) xs"

text \<open>Decimal rendering of an integer, as a template literal prints it.\<close>

definition string_of_int :: "int \<Rightarrow> string" where
  "string_of_int i = (if i < 0 then ''-'' @ string_of_nat (nat (- i)) else string_of_nat (nat i))"

subsection \<open>diffVulnerabilities\<close>

text \<open>\<^verbatim>\<open>const key = (v) => `${v.name}:${v.severity}`\<close>\<close>

definition key :: "Vulnerability \<Rightarrow> string" where
  "key v = name v @ '':'' @ severity_name (severity v)"

definition diffVulnerabilities :: "Vulnerability list \<Rightarrow> Vulnerability list
    \<Rightarrow> Vulnerability list \<times> Vulnerability list" where
  "diffVulnerabilities baselineList currentList =
     (let currentSet = set (map key currentList);
          baselineSet = set (map key baselineList);
          fixed = filter (\<lambda>v. key v \<notin> currentSet) baselineList;
          introduced = filter (\<lambda>v. key v \<notin> baselineSet) currentList
      in (fixed, introduced))"

subsection \<open>compareScansOverTime\<close>

text \<open>
  The clock and the generated scan id are inputs: \<open>now\<close> is
  \<^verbatim>\<open>new Date().toISOString()\<close> and \<open>new_id\<close> is the id built from \<^verbatim>\<open>Date.now()\<close>
  and \<^verbatim>\<open>Math.random()\<close>. The function returns the result and the new store.
  The arrow of the summary text is written as its three UTF-8 bytes.
\<close>

text \<open>\<^verbatim>\<open>SecurityAssistantService.scanStore.get(repoId) ?? []\<close>\<close>

definition history :: "scanStore \<Rightarrow> string \<Rightarrow> SavedScan list" where
  "history store repoId = (case store repoId of Some l \<Rightarrow> l | None \<Rightarrow> [])"

definition compareScansOverTime :: "string \<Rightarrow> string \<Rightarrow> scanStore \<Rightarrow> string \<Rightarrow> AuditSummary
    \<Rightarrow> compare_options \<Rightarrow> CompareScansResult \<times> scanStore" where
  "compareScansOverTime now new_id store repoId currentSummary options =
     (let scan = \<lparr>scan_id = new_id, scan_repoId = repoId, scan_ref = opt_ref options,
                  scan_subpath = opt_subpath options, scannedAt = now,
                  scan_summary = currentSummary, projectType = opt_projectType options\<rparr>;
          list = history store repoId;
          previous = (if length list > 0 then Some (last list) else None);
          list = slice_last MAX_SCANS_PER_REPO (list @ [scan]);
          store = store(repoId \<mapsto> list);
          currentSnapshot = \<lparr>snap_scannedAt = now, snap_counts = counts currentSummary,
                             snap_totalVulnerabilities = totalVulnerabilities currentSummary\<rparr>
      in case previous of
           None \<Rightarrow>
             (\<lparr>res_repoId = repoId, baseline = currentSnapshot, current = currentSnapshot,
               fixed = [], introduced = [],
               summary = ''First scan saved for **'' @ repoId @ ''**. Total: ''
                 @ string_of_nat (totalVulnerabilities currentSummary) @ '' vulnerability(ies). ''
                 @ ''Run this tool again after making changes to compare over time.'',
               isFirstScan = Some True\<rparr>, store)
         | Some previous \<Rightarrow>
             (let d = diffVulnerabilities (vulnerabilities (scan_summary previous))
                        (vulnerabilities currentSummary);
                  totalFixed = length (fst d);
                  totalIntroduced = length (snd d);
                  delta = int (totalVulnerabilities currentSummary)
                          - int (totalVulnerabilities (scan_summary previous));
                  summary = ''Compared **'' @ repoId @ ''**: baseline '' @ scannedAt previous
                    @ '' '' @ [CHR 0xE2, CHR 0x86, CHR 0x92] @ '' current '' @ now @ ''. '';
                  summary = (if totalFixed > 0
                             then summary @ ''**'' @ string_of_nat totalFixed @ ''** fixed. ''
                             else summary);
                  summary = (if totalIntroduced > 0
                             then summary @ ''**'' @ string_of_nat totalIntroduced
                                  @ ''** new or reintroduced. ''
                             else summary);
                  summary = summary @ ''Total change: '' @ (if delta \<ge> 0 then ''+'' else '''')
                    @ string_of_int delta @ '' vulnerability(ies).''
              in (\<lparr>res_repoId = repoId,
                   baseline = \<lparr>snap_scannedAt = scannedAt previous,
                                snap_counts = counts (scan_summary previous),
                                snap_totalVulnerabilities =
                                  totalVulnerabilities (scan_summary previous)\<rparr>,
                   current = currentSnapshot,
                   fixed = fst d, introduced = snd d, summary = summary,
                   isFirstScan = None\<rparr>, store)))"

text \<open>
  A sequence of calls: each element is the key, the clock, the scan id, the summary and the
  options of one call. The results are dropped and the store is threaded through.
\<close>

record scan_call =
  call_repoId :: string
  call_now :: string
  call_id :: string
  call_summary :: AuditSummary
  call_options :: compare_options

definition run_call :: "scanStore \<Rightarrow> scan_call \<Rightarrow> scanStore" where
  "run_call store c =
     snd (compareScansOverTime (call_now c) (call_id c) store (call_repoId c) (call_summary c)
            (call_options c))"

definition run_calls :: "scanStore \<Rightarrow> scan_call list \<Rightarrow> scanStore" where
  "run_calls store cs = foldl run_call store cs"

text \<open>The scan that a call saves.\<close>

definition saved_scan :: "scan_call \<Rightarrow> SavedScan" where
  "saved_scan c =
     \<lparr>scan_id = call_id c, scan_repoId = call_repoId c, scan_ref = opt_ref (call_options c),
      scan_subpath = opt_subpath (call_options c), scannedAt = call_now c,
      scan_summary = call_summary c, projectType = opt_projectType (call_options c)\<rparr>"

section \<open>Example data\<close>

text \<open>A finding with only the fields that the decisions read.\<close>

definition mk_vuln :: "string \<Rightarrow> SeverityLevel \<Rightarrow> fix_shape option \<Rightarrow> Vulnerability" where
  "mk_vuln n s f =
     \<lparr>name = n, severity = s, title = None, id_v = None, range_v = None, fixAvailable = f,
      via = None, isDirect = None, description = None\<rparr>"

text \<open>A summary over a list of findings, with counts \<open>c\<close>.\<close>

definition mk_summary :: "Counts \<Rightarrow> Vulnerability list \<Rightarrow> AuditSummary" where
  "mk_summary c vs =
     \<lparr>counts = c, totalVulnerabilities = length vs,
      hasCriticalOrHigh = (critical c > 0 \<or> high c > 0), vulnerabilities = vs\<rparr>"

text \<open>The end-to-end scenario: an npm report with metadata counts 1, 2, 3, 1, 0 and one
  enumerated finding for lodash.\<close>

definition ex_npm_report :: NpmAuditJson where
  "ex_npm_report =
     \<lparr>auditReportVersion = Some 2,
      npm_vulnerabilities =
        Some [(''lodash'',
               \<lparr>nv_severity = Some ''high'',
                nv_via = Some (ViaArray [ViaText ''lodash: Prototype Pollution'']),
                nv_isDirect = None, nv_effects = None, nv_range = None,
                nv_fixAvailable = Some (RawFixObject None (Some ''4.17.21''))\<rparr>)],
      metadata =
        Some \<lparr>meta_vulnerabilities =
                Some \<lparr>m_info = Some 0, m_low = Some 1, m_moderate = Some 3, m_high = Some 2,
                      m_critical = Some 1\<rparr>\<rparr>\<rparr>"

definition ex_node_env :: project_env where
  "ex_node_env =
     \<lparr>has_package_json = True, has_requirements_txt = False, has_pyproject_toml = False,
      has_Pipfile = False, npm_audit = Threw (Some ''{}''), pip_audit = Threw None,
      python_m_pip_audit = Threw None, parse_npm = (\<lambda>_. Some ex_npm_report),
      parse_pip = (\<lambda>_. None)\<rparr>"

definition ex_node_summary :: AuditSummary where
  "ex_node_summary =
     \<lparr>counts = \<lparr>critical = 1, high = 2, moderate = 3, low = 1, info = 0\<rparr>,
      totalVulnerabilities = 1, hasCriticalOrHigh = True,
      vulnerabilities =
        [\<lparr>name = ''lodash'', severity = High, title = Some ''lodash: Prototype Pollution'',
          id_v = None, range_v = None, fixAvailable = Some (FixVersion ''4.17.21''),
          via = Some [''lodash: Prototype Pollution''], isDirect = None,
          description = Some ''lodash: lodash: Prototype Pollution''\<rparr>]\<rparr>"

text \<open>A pip-audit report with three findings: severities MEDIUM, absent and Severe.\<close>

definition ex_pip_audit :: PipAuditJson where
  "ex_pip_audit =
     PipArray
       [\<lparr>dep_name = ''flask'', dep_version = ''0.5'',
         vulns = Some [\<lparr>pv_id = Some ''PYSEC-1'', fix_versions = Some [''1.0''],
                        pv_description = None, known_severity = Some ''MEDIUM''\<rparr>,
                       \<lparr>pv_id = None, fix_versions = None,
                        pv_description = Some ''template injection'', known_severity = None\<rparr>]\<rparr>,
        \<lparr>dep_name = ''jinja2'', dep_version = ''2.0'',
         vulns = Some [\<lparr>pv_id = Some ''PYSEC-2'', fix_versions = Some [],
                        pv_description = None, known_severity = Some ''Severe''\<rparr>]\<rparr>]"

text \<open>
  Two Node projects whose audit cannot be read: \<^verbatim>\<open>npm audit\<close> prints text that is
  not JSON, and \<^verbatim>\<open>npm\<close> cannot be run at all (\<^verbatim>\<open>execSync\<close> throws, with an
  empty \<^verbatim>\<open>stdout\<close>).
\<close>

definition ex_unparsable_node_env :: project_env where
  "ex_unparsable_node_env =
     \<lparr>has_package_json = True, has_requirements_txt = False, has_pyproject_toml = False,
      has_Pipfile = False, npm_audit = Completed ''npm ERR! audit endpoint returned an error'',
      pip_audit = Threw None, python_m_pip_audit = Threw None, parse_npm = (\<lambda>_. None),
      parse_pip = (\<lambda>_. None)\<rparr>"

definition ex_npm_missing_env :: project_env where
  "ex_npm_missing_env =
     \<lparr>has_package_json = True, has_requirements_txt = False, has_pyproject_toml = False,
      has_Pipfile = False, npm_audit = Threw (Some []),
      pip_audit = Threw None, python_m_pip_audit = Threw None,
      parse_npm = (\<lambda>_. Some ex_npm_report), parse_pip = (\<lambda>_. None)\<rparr>"

text \<open>A pip-audit report with one finding whose severity is the string \<^verbatim>\<open>constructor\<close>.\<close>

definition ex_constructor_audit :: PipAuditJson where
  "ex_constructor_audit =
     PipArray
       [\<lparr>dep_name = ''flask'', dep_version = ''0.5'',
         vulns = Some [\<lparr>pv_id = Some ''PYSEC-1'', fix_versions = None,
                        pv_description = None, known_severity = Some ''constructor''\<rparr>]\<rparr>]"

text \<open>A saved scan of the end-to-end summary, empty options, and the \<open>i\<close>-th of a series of
  calls on one key.\<close>

definition ex_scan :: SavedScan where
  "ex_scan =
     \<lparr>scan_id = ''scan-1'', scan_repoId = ''acme/widgets'', scan_ref = None, scan_subpath = None,
      scannedAt = ''2025-01-01T12:00:00.000Z'', scan_summary = ex_node_summary,
      projectType = Some Node\<rparr>"

definition no_options :: compare_options where
  "no_options = \<lparr>opt_ref = None, opt_subpath = None, opt_projectType = None\<rparr>"

definition ex_call :: "nat \<Rightarrow> scan_call" where
  "ex_call i =
     \<lparr>call_repoId = ''acme/widgets'', call_now = string_of_nat i,
      call_id = ''scan-'' @ string_of_nat i, call_summary = empty_summary,
      call_options = no_options\<rparr>"

text \<open>Five findings: two for lodash with a fix version, one with a boolean fix flag, one
  without a fix and one whose flag is false.\<close>

definition ex_upgrade_audit :: AuditSummary where
  "ex_upgrade_audit =
     mk_summary zero_counts
       [mk_vuln ''lodash'' Low (Some (FixVersion ''4.17.21'')),
        mk_vuln ''lodash'' High (Some (FixVersion ''4.17.22'')),
        mk_vuln ''express'' Critical (Some (FixFlag True)),
        mk_vuln ''minimist'' Moderate None,
        mk_vuln ''qs'' High (Some (FixFlag False))]"

section \<open>Invariants used in the proofs\<close>

text \<open>The loop invariant of the pip adapter: every counter is the number of listed findings of its level.\<close>

definition counts_agree :: "Counts \<times> Vulnerability list \<Rightarrow> bool" where
  "counts_agree acc =
     (list_all (\<lambda>s. count_of (fst acc) s = length (filter (\<lambda>v. severity v = s) (snd acc)))
        [Critical, High, Moderate, Low, Info])"

text \<open>
  The findings for which the upgrade loop pushes a suggestion: those with a truthy fix
  whose package is not yet in \<open>seen\<close>.
\<close>

fun first_fixes :: "string set \<Rightarrow> Vulnerability list \<Rightarrow> Vulnerability list" where
  "first_fixes seen [] = []"
| "first_fixes seen (v # vs) =
     (if \<not> truthy_fix (fixAvailable v) \<or> name v \<in> seen then first_fixes seen vs
      else v # first_fixes (insert (name v) seen) vs)"

section \<open>Properties\<close>

subsection \<open>The stable sort\<close>

lemma mset_insert_sorted: "mset (insert_sorted cmp x ys) = add_mset x (mset ys)"
  by (induction ys) simp_all

lemma mset_js_sort: "mset (js_sort cmp xs) = mset xs"
  unfolding js_sort_def by (induction xs) (simp_all add: mset_insert_sorted)

lemma set_insert_sorted: "set (insert_sorted cmp x ys) = insert x (set ys)"
  by (induction ys) auto

lemma by_score_le0: "by_score_desc a b \<le> 0 \<longleftrightarrow> SEVERITY_SCORE b \<le> SEVERITY_SCORE a"
  by (simp add: by_score_desc_def)

lemma SEVERITY_SCORE_inj: "SEVERITY_SCORE a = SEVERITY_SCORE b \<longleftrightarrow> a = b"
  by (cases a; cases b) simp_all

lemma sorted_insert_sorted:
  assumes "sorted_wrt (\<lambda>a b. SEVERITY_SCORE (f b) \<le> SEVERITY_SCORE (f a)) ys"
  shows "sorted_wrt (\<lambda>a b. SEVERITY_SCORE (f b) \<le> SEVERITY_SCORE (f a))
           (insert_sorted (\<lambda>a b. by_score_desc (f a) (f b)) x ys)"
  using assms
proof (induction ys)
  case Nil
  then show ?case by simp
next
  case (Cons y ys)
  show ?case
  proof (cases "SEVERITY_SCORE (f y) \<le> SEVERITY_SCORE (f x)")
    case True
    with Cons.prems show ?thesis
      by (auto simp: by_score_le0 intro: order_trans)
  next
    case False
    with Cons show ?thesis
      by (auto simp: by_score_le0 set_insert_sorted)
  qed
qed

lemma sorted_js_sort:
  "sorted_wrt (\<lambda>a b. SEVERITY_SCORE (f b) \<le> SEVERITY_SCORE (f a))
     (js_sort (\<lambda>a b. by_score_desc (f a) (f b)) xs)"
  unfolding js_sort_def by (induction xs) (simp_all add: sorted_insert_sorted)

lemma filter_insert_sorted:
  "filter (\<lambda>v. f v = s) (insert_sorted (\<lambda>a b. by_score_desc (f a) (f b)) x ys) =
     (if f x = s then x # filter (\<lambda>v. f v = s) ys else filter (\<lambda>v. f v = s) ys)"
  by (induction ys) (auto simp: by_score_le0)

lemma filter_js_sort:
  "filter (\<lambda>v. f v = s) (js_sort (\<lambda>a b. by_score_desc (f a) (f b)) xs) = filter (\<lambda>v. f v = s) xs"
  unfolding js_sort_def by (induction xs) (simp_all add: filter_insert_sorted)

lemma insert_sorted_head:
  "sorted_wrt (\<lambda>a b. SEVERITY_SCORE (f b) \<le> SEVERITY_SCORE (f a)) (x # ys) \<Longrightarrow>
     insert_sorted (\<lambda>a b. by_score_desc (f a) (f b)) x ys = x # ys"
  by (cases ys) (simp_all add: by_score_le0)

lemma js_sort_sorted_id:
  "sorted_wrt (\<lambda>a b. SEVERITY_SCORE (f b) \<le> SEVERITY_SCORE (f a)) xs \<Longrightarrow>
     js_sort (\<lambda>a b. by_score_desc (f a) (f b)) xs = xs"
proof (induction xs)
  case Nil
  then show ?case by (simp add: js_sort_def)
next
  case (Cons x xs)
  then have "js_sort (\<lambda>a b. by_score_desc (f a) (f b)) xs = xs" by simp
  then have "js_sort (\<lambda>a b. by_score_desc (f a) (f b)) (x # xs) =
      insert_sorted (\<lambda>a b. by_score_desc (f a) (f b)) x xs"
    by (simp add: js_sort_def)
  with Cons.prems show ?case by (simp only: insert_sorted_head)
qed

lemma js_sort_idem:
  "js_sort (\<lambda>a b. by_score_desc (f a) (f b)) (js_sort (\<lambda>a b. by_score_desc (f a) (f b)) xs) =
     js_sort (\<lambda>a b. by_score_desc (f a) (f b)) xs"
  by (rule js_sort_sorted_id) (rule sorted_js_sort)

lemma js_sort_Nil_iff: "js_sort cmp xs = [] \<longleftrightarrow> xs = []"
  using mset_js_sort [of cmp xs] by (metis mset_zero_iff)

subsection \<open>Highest-risk selection\<close>

text \<open>
  C8. \<^verbatim>\<open>getHighestRiskDependency\<close> orders the findings of a summary by a stable sort,
  descending by severity score (100, 80, 50, 20, 5): the result is a permutation of the
  list, its scores never increase, and the findings of each severity level keep their
  relative order. The reported highest element is the first of that order, and it is null
  exactly when the list is empty. Applying the selection to its own ordering returns the
  same highest element and the same ordering.
\<close>

theorem C8_highest_risk_stable_sort:
  "mset (allBySeverity (highestRiskOf s)) = mset (vulnerabilities s)
   \<and> sorted_wrt (\<lambda>a b. SEVERITY_SCORE (severity a) \<ge> SEVERITY_SCORE (severity b))
         (allBySeverity (highestRiskOf s))
   \<and> filter (\<lambda>v. severity v = lvl) (allBySeverity (highestRiskOf s))
       = filter (\<lambda>v. severity v = lvl) (vulnerabilities s)
   \<and> highest (highestRiskOf s)
       = (case allBySeverity (highestRiskOf s) of [] \<Rightarrow> None | h # _ \<Rightarrow> Some h)
   \<and> (highest (highestRiskOf s) = None) = (vulnerabilities s = [])
   \<and> highestRiskOf (s\<lparr>vulnerabilities := allBySeverity (highestRiskOf s)\<rparr>) = highestRiskOf s
   \<and> map SEVERITY_SCORE [Critical, High, Moderate, Low, Info] = [100, 80, 50, 20, 5]"
proof -
  let ?srt = "js_sort (\<lambda>a b. by_score_desc (severity a) (severity b)) (vulnerabilities s)"
  have a: "allBySeverity (highestRiskOf s) = ?srt"
    by (simp add: highestRiskOf_def Let_def)
  have h: "highest (highestRiskOf s) = (case ?srt of [] \<Rightarrow> None | h # _ \<Rightarrow> Some h)"
    by (simp add: highestRiskOf_def Let_def)
  have n: "(highest (highestRiskOf s) = None) = (vulnerabilities s = [])"
    unfolding h using js_sort_Nil_iff [of _ "vulnerabilities s"]
    by (cases ?srt) auto
  have i: "highestRiskOf (s\<lparr>vulnerabilities := ?srt\<rparr>) = highestRiskOf s"
    by (simp add: highestRiskOf_def Let_def js_sort_idem)
  show ?thesis
    unfolding a using h n i
    by (simp add: mset_js_sort sorted_js_sort filter_js_sort)
qed

theorem C8_highest_risk_witness:
  "allBySeverity (highestRiskOf (mk_summary zero_counts
      [mk_vuln ''a'' Low None, mk_vuln ''b'' High None, mk_vuln ''c'' Low None,
       mk_vuln ''d'' High None, mk_vuln ''e'' Critical None]))
   = [mk_vuln ''e'' Critical None, mk_vuln ''b'' High None, mk_vuln ''d'' High None,
      mk_vuln ''a'' Low None, mk_vuln ''c'' Low None]
   \<and> highest (highestRiskOf (mk_summary zero_counts
      [mk_vuln ''a'' Low None, mk_vuln ''b'' High None, mk_vuln ''c'' Low None,
       mk_vuln ''d'' High None, mk_vuln ''e'' Critical None]))
   = Some (mk_vuln ''e'' Critical None)"
  using C8_highest_risk_stable_sort [of "mk_summary zero_counts
      [mk_vuln ''a'' Low None, mk_vuln ''b'' High None, mk_vuln ''c'' Low None,
       mk_vuln ''d'' High None, mk_vuln ''e'' Critical None]" Low]
  by (simp add: highestRiskOf_def mk_summary_def mk_vuln_def js_sort_def by_score_desc_def)

subsection \<open>The adapters\<close>

lemma count_of_incr_count:
  "count_of (incr_count c s) t = (if s = t then count_of c t + 1 else count_of c t)"
  by (cases s; cases t) simp_all

lemma count_of_zero_counts: "count_of zero_counts s = 0"
  by (cases s) (simp_all add: zero_counts_def)

lemma counts_agree_iff:
  "counts_agree acc \<longleftrightarrow> (\<forall>s. count_of (fst acc) s = length (filter (\<lambda>v. severity v = s) (snd acc)))"
proof
  assume a: "counts_agree acc"
  show "\<forall>s. count_of (fst acc) s = length (filter (\<lambda>v. severity v = s) (snd acc))"
  proof
    fix s show "count_of (fst acc) s = length (filter (\<lambda>v. severity v = s) (snd acc))"
      using a by (cases s) (simp_all add: counts_agree_def)
  qed
next
  assume "\<forall>s. count_of (fst acc) s = length (filter (\<lambda>v. severity v = s) (snd acc))"
  then show "counts_agree acc" by (simp add: counts_agree_def)
qed

lemma pip_finding_agree: "counts_agree acc \<Longrightarrow> counts_agree (pip_finding dep acc v)"
  unfolding counts_agree_iff
  by (auto simp: pip_finding_def count_of_incr_count split: map_value.splits)

lemma foldl_pip_finding_agree: "counts_agree acc \<Longrightarrow> counts_agree (foldl (pip_finding dep) acc vs)"
  by (induction vs arbitrary: acc) (simp_all add: pip_finding_agree)

lemma pip_dep_agree: "counts_agree acc \<Longrightarrow> counts_agree (pip_dep acc dep)"
  by (simp add: pip_dep_def foldl_pip_finding_agree)

lemma foldl_pip_dep_agree: "counts_agree acc \<Longrightarrow> counts_agree (foldl pip_dep acc ds)"
  by (induction ds arbitrary: acc) (simp_all add: pip_dep_agree)

lemma counts_agree_init: "counts_agree (zero_counts, [])"
  by (simp add: counts_agree_iff count_of_zero_counts)

lemma length_by_severity:
  "length vs =
     length (filter (\<lambda>v. severity v = Critical) vs) + length (filter (\<lambda>v. severity v = High) vs)
     + length (filter (\<lambda>v. severity v = Moderate) vs) + length (filter (\<lambda>v. severity v = Low) vs)
     + length (filter (\<lambda>v. severity v = Info) vs)"
proof (induction vs)
  case Nil
  then show ?case by simp
next
  case (Cons v vs)
  then show ?case by (cases "severity v") simp_all
qed

lemma ex_node_run: "getAuditSummary ex_node_env = Inr ex_node_summary"
  by (simp add: getAuditSummary_def detectProjectType_def runAudit_def ex_node_env_def
      ex_npm_report_def ex_node_summary_def counts_of_meta_def npm_finding_def level_of_name_def
      SEVERITY_ORDER_def via_title_def)

lemma ex_pip_run:
  "normalizePipAuditToSummary ex_pip_audit =
     \<lparr>counts = \<lparr>critical = 0, high = 2, moderate = 1, low = 0, info = 0\<rparr>,
      totalVulnerabilities = 3, hasCriticalOrHigh = True,
      vulnerabilities =
        [\<lparr>name = ''flask'', severity = Moderate, title = Some ''PYSEC-1'', id_v = Some ''PYSEC-1'',
          range_v = Some ''0.5'', fixAvailable = Some (FixVersion ''1.0''), via = None,
          isDirect = Some True, description = None\<rparr>,
         \<lparr>name = ''flask'', severity = High, title = Some ''template injection'', id_v = None,
          range_v = Some ''0.5'', fixAvailable = Some (FixFlag False), via = None,
          isDirect = Some True, description = Some ''template injection''\<rparr>,
         \<lparr>name = ''jinja2'', severity = High, title = Some ''PYSEC-2'', id_v = Some ''PYSEC-2'',
          range_v = Some ''2.0'', fixAvailable = Some (FixFlag False), via = None,
          isDirect = Some True, description = None\<rparr>]\<rparr>"
  by (simp add: normalizePipAuditToSummary_def ex_pip_audit_def pip_deps_def pip_dep_def
      pip_finding_def pip_severity_def toLowerCase_def lower_char_def severityMap_def
      object_prototype_keys_def SEVERITY_ORDER_def zero_counts_def)

lemma pip_summary_invariants:
  "totalVulnerabilities (normalizePipAuditToSummary a)
     = length (vulnerabilities (normalizePipAuditToSummary a))
   \<and> hasCriticalOrHigh (normalizePipAuditToSummary a)
     = (critical (counts (normalizePipAuditToSummary a)) > 0
        \<or> high (counts (normalizePipAuditToSummary a)) > 0)"
  by (simp add: normalizePipAuditToSummary_def Let_def)

lemma empty_summary_invariants:
  "totalVulnerabilities empty_summary = length (vulnerabilities empty_summary)
   \<and> hasCriticalOrHigh empty_summary
     = (critical (counts empty_summary) > 0 \<or> high (counts empty_summary) > 0)"
  by (simp add: empty_summary_def zero_counts_def)

lemma audit_summary_invariants:
  assumes "getAuditSummary env = Inr s"
  shows "totalVulnerabilities s = length (vulnerabilities s)
    \<and> hasCriticalOrHigh s = (critical (counts s) > 0 \<or> high (counts s) > 0)"
  using assms pip_summary_invariants empty_summary_invariants
  by (auto simp: getAuditSummary_def Let_def split: if_splits option.splits)

text \<open>
  C2. Every summary that \<^verbatim>\<open>getAuditSummary\<close> returns, and every summary that
  \<^verbatim>\<open>normalizePipAuditToSummary\<close> builds from a pip-audit report, has
  \<^verbatim>\<open>totalVulnerabilities\<close> equal to the length of its vulnerability list and
  \<^verbatim>\<open>hasCriticalOrHigh\<close> true exactly when the critical or the high count is positive.
\<close>

theorem C2_adapter_invariants:
  "(getAuditSummary env = Inr s \<longrightarrow>
      totalVulnerabilities s = length (vulnerabilities s)
      \<and> hasCriticalOrHigh s = (critical (counts s) > 0 \<or> high (counts s) > 0))
   \<and> totalVulnerabilities (normalizePipAuditToSummary audit)
       = length (vulnerabilities (normalizePipAuditToSummary audit))
   \<and> hasCriticalOrHigh (normalizePipAuditToSummary audit)
       = (critical (counts (normalizePipAuditToSummary audit)) > 0
          \<or> high (counts (normalizePipAuditToSummary audit)) > 0)"
  using audit_summary_invariants [of env s] pip_summary_invariants [of audit] by simp

theorem C2_adapter_invariants_witness:
  "getAuditSummary ex_node_env = Inr ex_node_summary
   \<and> totalVulnerabilities ex_node_summary = length (vulnerabilities ex_node_summary)
   \<and> hasCriticalOrHigh ex_node_summary
      = (critical (counts ex_node_summary) > 0 \<or> high (counts ex_node_summary) > 0)"
  using C2_adapter_invariants [of ex_node_env ex_node_summary "PipArray []"] ex_node_run
  by simp

text \<open>
  C10. In the summary the pip adapter builds, the count of every severity level is the
  number of listed findings of that level, and the five counts add up to
  \<^verbatim>\<open>totalVulnerabilities\<close>.
\<close>

theorem C10_pip_counts_agree_with_list:
  "count_of (counts (normalizePipAuditToSummary audit)) s
     = length (filter (\<lambda>v. severity v = s) (vulnerabilities (normalizePipAuditToSummary audit)))
   \<and> critical (counts (normalizePipAuditToSummary audit))
     + high (counts (normalizePipAuditToSummary audit))
     + moderate (counts (normalizePipAuditToSummary audit))
     + low (counts (normalizePipAuditToSummary audit))
     + info (counts (normalizePipAuditToSummary audit))
     = totalVulnerabilities (normalizePipAuditToSummary audit)"
proof -
  let ?r = "foldl pip_dep (zero_counts, []) (pip_deps audit)"
  have agree: "\<forall>s. count_of (fst ?r) s = length (filter (\<lambda>v. severity v = s) (snd ?r))"
    using foldl_pip_dep_agree [OF counts_agree_init, of "pip_deps audit"]
    unfolding counts_agree_iff .
  have c: "counts (normalizePipAuditToSummary audit) = fst ?r"
    and v: "vulnerabilities (normalizePipAuditToSummary audit) = snd ?r"
    and t: "totalVulnerabilities (normalizePipAuditToSummary audit) = length (snd ?r)"
    by (simp_all add: normalizePipAuditToSummary_def Let_def)
  have sum: "critical (fst ?r) + high (fst ?r) + moderate (fst ?r) + low (fst ?r) + info (fst ?r)
      = length (snd ?r)"
    using agree [rule_format, of Critical] agree [rule_format, of High]
      agree [rule_format, of Moderate] agree [rule_format, of Low] agree [rule_format, of Info]
      length_by_severity [of "snd ?r"]
    by simp
  show ?thesis
    unfolding c v t using agree sum by simp
qed

theorem C10_pip_counts_witness:
  "count_of (counts (normalizePipAuditToSummary ex_pip_audit)) High = 2
   \<and> length (filter (\<lambda>v. severity v = High) (vulnerabilities (normalizePipAuditToSummary ex_pip_audit))) = 2
   \<and> totalVulnerabilities (normalizePipAuditToSummary ex_pip_audit) = 3"
  using C10_pip_counts_agree_with_list [of ex_pip_audit High]
  by (simp add: ex_pip_run)

subsection \<open>Scanner failures\<close>

lemma runPipAudit_unparsable:
  "(\<And>out. parse_pip env out = None) \<Longrightarrow> runPipAudit env = None"
  by (simp add: runPipAudit_def Let_def split: option.splits)

lemma runPipAudit_missing:
  "pip_audit env = Threw None \<Longrightarrow> python_m_pip_audit env = Threw None \<Longrightarrow> runPipAudit env = None"
  by (simp add: runPipAudit_def run_cmd_def)

lemma python_scanner_failure:
  "detectProjectType env = Some Python \<Longrightarrow> runPipAudit env = None \<Longrightarrow>
     getAuditSummary env = Inl PythonAuditFailed"
  by (simp add: getAuditSummary_def)

lemma runAudit_unparsable:
  "(\<And>out. parse_npm env out = None) \<Longrightarrow> runAudit env = None"
  by (simp add: runAudit_def split: exec_result.splits option.splits)

lemma node_scanner_failure:
  "has_package_json env \<Longrightarrow> runAudit env = None \<Longrightarrow> getAuditSummary env = Inr empty_summary"
  by (simp add: getAuditSummary_def detectProjectType_def)

lemma getShipReadiness_of_summary:
  "getShipReadiness env = Inr r \<longleftrightarrow> (\<exists>s. getAuditSummary env = Inr s \<and> r = shipReadinessOf s)"
  by (auto simp: getShipReadiness_def split: sum.splits)

lemma getHighestRiskDependency_of_summary:
  "getHighestRiskDependency env = Inr r \<longleftrightarrow>
     (\<exists>s. getAuditSummary env = Inr s \<and> r = highestRiskOf s)"
  by (auto simp: getHighestRiskDependency_def split: sum.splits)

lemma getUpgradeSuggestions_of_summary:
  "getUpgradeSuggestions env = Inr r \<longleftrightarrow>
     (\<exists>s. getAuditSummary env = Inr s
          \<and> r = upgradeSuggestionsOf (detectProjectType env = Some Python) s)"
  by (auto simp: getUpgradeSuggestions_def Let_def split: sum.splits)

lemma getShipReadiness_safe_iff:
  assumes "getShipReadiness env = Inr r"
  shows "safeToShip r = (sr_critical r = 0 \<and> sr_high r = 0)"
proof -
  from assms obtain s where s: "getAuditSummary env = Inr s" and r: "r = shipReadinessOf s"
    unfolding getShipReadiness_of_summary by blast
  from audit_summary_invariants [OF s] show ?thesis
    by (simp add: r shipReadinessOf_def Let_def)
qed

text \<open>
  C1. In a project root with a \<^verbatim>\<open>package.json\<close> whose \<^verbatim>\<open>npm audit\<close> output is not
  JSON, or whose \<^verbatim>\<open>npm audit\<close> cannot be run and leaves no output,
  \<^verbatim>\<open>getAuditSummary\<close> returns the empty summary with all counts zero, and
  \<^verbatim>\<open>getShipReadiness\<close> answers that it is safe to ship. The Python path fails with
  the audit-failed error in the same situation (\<open>python_scanner_failure\<close>).
\<close>

theorem C1_node_scanner_failure_gives_empty_summary:
  "getAuditSummary ex_unparsable_node_env
     = Inr \<lparr>counts = \<lparr>critical = 0, high = 0, moderate = 0, low = 0, info = 0\<rparr>,
            totalVulnerabilities = 0, hasCriticalOrHigh = False, vulnerabilities = []\<rparr>
   \<and> map_sum id safeToShip (getShipReadiness ex_unparsable_node_env) = Inr True
   \<and> getAuditSummary ex_npm_missing_env
     = Inr \<lparr>counts = \<lparr>critical = 0, high = 0, moderate = 0, low = 0, info = 0\<rparr>,
            totalVulnerabilities = 0, hasCriticalOrHigh = False, vulnerabilities = []\<rparr>
   \<and> map_sum id safeToShip (getShipReadiness ex_npm_missing_env) = Inr True"
  by (simp add: getShipReadiness_def getAuditSummary_def detectProjectType_def runAudit_def
      ex_unparsable_node_env_def ex_npm_missing_env_def empty_summary_def zero_counts_def
      shipReadinessOf_def)

subsection \<open>Severity fallbacks of the two adapters\<close>

lemma level_of_name_Some: "level_of_name s = Some l \<longleftrightarrow> severity_name l = s"
  by (cases l) (auto simp: level_of_name_def SEVERITY_ORDER_def)

lemma level_of_name_None: "level_of_name s = None \<longleftrightarrow> s \<notin> severity_name ` set SEVERITY_ORDER"
  by (auto simp: level_of_name_def SEVERITY_ORDER_def)

lemma npm_absent_severity_is_moderate:
  "nv_severity v = None \<Longrightarrow>
     \<exists>x. npm_finding acc (n, v) = acc @ [x] \<and> severity x = Moderate \<and> name x = n"
  by (simp add: npm_finding_def Let_def level_of_name_def SEVERITY_ORDER_def)

lemma npm_recognized_severity_is_listed:
  "nv_severity v = Some (severity_name l) \<Longrightarrow>
     \<exists>x. npm_finding acc (n, v) = acc @ [x] \<and> severity x = l \<and> name x = n"
proof -
  assume a: "nv_severity v = Some (severity_name l)"
  have "level_of_name (severity_name l) = Some l" by (simp add: level_of_name_Some)
  with a show ?thesis by (simp add: npm_finding_def Let_def)
qed

lemma npm_unrecognized_severity_is_dropped:
  assumes "nv_severity v = Some t" and "t \<notin> severity_name ` set SEVERITY_ORDER"
  shows "npm_finding acc (n, v) = acc"
proof -
  from assms(2) have "level_of_name t = None" using level_of_name_None [of t] by blast
  with assms(1) show ?thesis by (simp add: npm_finding_def Let_def)
qed

lemma npm_counts_from_metadata:
  "has_package_json env \<Longrightarrow> runAudit env = Some audit \<Longrightarrow>
   npm_vulnerabilities audit = Some entries \<Longrightarrow>
     map_sum id counts (getAuditSummary env)
       = Inr (counts_of_meta
               (case metadata audit of
                  None \<Rightarrow> empty_meta
                | Some md \<Rightarrow> (case meta_vulnerabilities md of None \<Rightarrow> empty_meta | Some m \<Rightarrow> m)))"
  by (simp add: getAuditSummary_def detectProjectType_def Let_def)

lemma counts_of_empty_meta: "counts_of_meta empty_meta = zero_counts"
  by (simp add: counts_of_meta_def empty_meta_def zero_counts_def)

lemma pip_missing_severity_is_high: "known_severity v = None \<Longrightarrow> pip_severity v = Level High"
  by (simp add: pip_severity_def)

lemma pip_medium_is_moderate:
  "known_severity v = Some t \<Longrightarrow> toLowerCase t = ''medium'' \<Longrightarrow> pip_severity v = Level Moderate"
  by (simp add: pip_severity_def severityMap_def)

lemma pip_unrecognized_severity_is_high:
  "known_severity v = Some t \<Longrightarrow>
   toLowerCase t \<notin> set [''critical'', ''high'', ''medium'', ''moderate'', ''low'', ''info''] \<Longrightarrow>
   toLowerCase t \<notin> set object_prototype_keys \<Longrightarrow>
     pip_severity v = Level High"
  by (simp add: pip_severity_def severityMap_def)

lemma pip_level_is_counted_and_listed:
  "pip_severity v = Level s \<Longrightarrow>
     \<exists>x. pip_finding dep (c, vs) v = (incr_count c s, vs @ [x]) \<and> severity x = s
          \<and> name x = dep_name dep"
  by (cases s) (simp_all add: pip_finding_def SEVERITY_ORDER_def)

text \<open>
  C3. A pip-audit finding whose \<^verbatim>\<open>known_severity\<close> is the unrecognized string
  \<^verbatim>\<open>constructor\<close> is neither counted nor listed: the lookup in \<^verbatim>\<open>severityMap\<close>
  finds the inherited property, which is no severity level, and the finding is skipped.
\<close>

theorem C3_pip_unrecognized_severity_dropped:
  "normalizePipAuditToSummary ex_constructor_audit
     = \<lparr>counts = \<lparr>critical = 0, high = 0, moderate = 0, low = 0, info = 0\<rparr>,
        totalVulnerabilities = 0, hasCriticalOrHigh = False, vulnerabilities = []\<rparr>"
  by (simp add: normalizePipAuditToSummary_def ex_constructor_audit_def pip_deps_def pip_dep_def
      pip_finding_def pip_severity_def toLowerCase_def lower_char_def severityMap_def
      object_prototype_keys_def zero_counts_def)

subsection \<open>Decimal rendering\<close>

lemma digit_char_digit: "d < 10 \<Longrightarrow> digit_char d \<in> set ''0123456789''"
  unfolding digit_char_def by (rule nth_mem) simp

lemma string_of_nat_digits: "set (string_of_nat n) \<subseteq> set ''0123456789''"
proof (induction n rule: string_of_nat.induct)
  case (1 n)
  show ?case
  proof (cases "n < 10")
    case True
    then show ?thesis
      using digit_char_digit [of n] by (subst string_of_nat.simps) simp
  next
    case False
    then show ?thesis
      using 1 digit_char_digit [of "n mod 10"] by (subst string_of_nat.simps) simp
  qed
qed

lemma string_of_nat_nonempty: "string_of_nat n \<noteq> []"
  by (subst string_of_nat.simps) simp

lemma string_of_nat_Cons: "\<exists>d ds. string_of_nat n = d # ds \<and> d \<in> set ''0123456789''"
proof -
  obtain d ds where e: "string_of_nat n = d # ds"
    using string_of_nat_nonempty [of n] by (cases "string_of_nat n") auto
  with string_of_nat_digits [of n] show ?thesis by auto
qed

subsection \<open>Ship readiness\<close>

lemma reason_none_not_minor: "reason_none \<noteq> reason_minor m l"
  by (simp add: reason_none_def reason_minor_def)

lemma reason_none_not_blocking: "reason_none \<noteq> reason_blocking c h"
  by (simp add: reason_none_def reason_blocking_def)

lemma reason_minor_not_blocking: "reason_minor m l \<noteq> reason_blocking c h"
proof -
  obtain d ds where e: "string_of_nat c = d # ds" and d: "d \<in> set ''0123456789''"
    using string_of_nat_Cons [of c] by blast
  from d have "d \<noteq> CHR ''n''" by auto
  with e show ?thesis by (simp add: reason_minor_def reason_blocking_def)
qed

lemma digit_char_inj: "a < 10 \<Longrightarrow> b < 10 \<Longrightarrow> digit_char a = digit_char b \<Longrightarrow> a = b"
proof -
  assume a: "a < 10" and b: "b < 10" and e: "digit_char a = digit_char b"
  have d: "distinct ''0123456789''" by simp
  from a b have "a < length ''0123456789''" "b < length ''0123456789''" by simp_all
  with d e show "a = b" unfolding digit_char_def by (simp only: nth_eq_iff_index_eq)
qed

lemma length_string_of_nat_one: "length (string_of_nat n) = 1 \<longleftrightarrow> n < 10"
proof (cases "n < 10")
  case True
  then show ?thesis by (subst string_of_nat.simps) simp
next
  case False
  then show ?thesis
    using string_of_nat_nonempty [of "n div 10"]
    by (subst string_of_nat.simps) (cases "string_of_nat (n div 10)", simp_all)
qed

lemma string_of_nat_inj: "string_of_nat a = string_of_nat b \<Longrightarrow> a = b"
proof (induction a arbitrary: b rule: string_of_nat.induct)
  case (1 a)
  from "1.prems" have l: "(a < 10) = (b < 10)"
    using length_string_of_nat_one [of a] length_string_of_nat_one [of b] by simp
  show ?case
  proof (cases "a < 10")
    case True
    with l have b: "b < 10" by simp
    from "1.prems" True b have "digit_char a = digit_char b"
      by (simp add: string_of_nat.simps [of a] string_of_nat.simps [of b])
    with True b show ?thesis by (rule digit_char_inj)
  next
    case False
    with l have b: "\<not> b < 10" by simp
    from "1.prems" False b
    have e: "string_of_nat (a div 10) = string_of_nat (b div 10)"
      and d: "digit_char (a mod 10) = digit_char (b mod 10)"
      by (simp_all add: string_of_nat.simps [of a] string_of_nat.simps [of b])
    from "1.IH" [OF False e] have q: "a div 10 = b div 10" .
    from d have r: "a mod 10 = b mod 10" by (intro digit_char_inj) simp_all
    from q r show ?thesis by (metis div_mult_mod_eq)
  qed
qed

lemma split_at_first_separator:
  assumes "c \<notin> set n" and "c \<notin> set n'" and "n @ c # s = n' @ c # s'"
  shows "n = n' \<and> s = s'"
proof -
  have t: "takeWhile (\<lambda>x. x \<noteq> c) (u @ c # w) = u" if "c \<notin> set u" for u w
    using that by (induction u) auto
  from assms(3) have "takeWhile (\<lambda>x. x \<noteq> c) (n @ c # s) = takeWhile (\<lambda>x. x \<noteq> c) (n' @ c # s')"
    by simp
  then have "n = n'" using t [OF assms(1)] t [OF assms(2)] by simp
  with assms(3) show ?thesis by simp
qed

lemma string_of_nat_no_space: "CHR '' '' \<notin> set (string_of_nat n)"
  using string_of_nat_digits [of n] by auto

lemma reason_minor_inj: "reason_minor m l = reason_minor m' l' \<Longrightarrow> m = m' \<and> l = l'"
proof -
  assume "reason_minor m l = reason_minor m' l'"
  then have e: "string_of_nat m @ CHR '' '' # (''moderate and '' @ string_of_nat l @ CHR '' '' # ''low'')
      = string_of_nat m' @ CHR '' '' # (''moderate and '' @ string_of_nat l' @ CHR '' '' # ''low'')"
    by (simp add: reason_minor_def)
  from split_at_first_separator [OF string_of_nat_no_space string_of_nat_no_space e]
  have m: "string_of_nat m = string_of_nat m'"
    and r: "string_of_nat l @ CHR '' '' # ''low'' = string_of_nat l' @ CHR '' '' # ''low''"
    by simp_all
  from split_at_first_separator [OF string_of_nat_no_space string_of_nat_no_space r]
  have "string_of_nat l = string_of_nat l'" by simp
  with m show ?thesis by (simp add: string_of_nat_inj)
qed

lemma reason_blocking_inj: "reason_blocking c h = reason_blocking c' h' \<Longrightarrow> c = c' \<and> h = h'"
proof -
  assume "reason_blocking c h = reason_blocking c' h'"
  then have e: "string_of_nat c @ CHR '' '' # (''critical and '' @ string_of_nat h @ CHR '' '' # ''high'')
      = string_of_nat c' @ CHR '' '' # (''critical and '' @ string_of_nat h' @ CHR '' '' # ''high'')"
    by (simp add: reason_blocking_def)
  from split_at_first_separator [OF string_of_nat_no_space string_of_nat_no_space e]
  have c: "string_of_nat c = string_of_nat c'"
    and r: "string_of_nat h @ CHR '' '' # ''high'' = string_of_nat h' @ CHR '' '' # ''high''"
    by simp_all
  from split_at_first_separator [OF string_of_nat_no_space string_of_nat_no_space r]
  have "string_of_nat h = string_of_nat h'" by simp
  with c show ?thesis by (simp add: string_of_nat_inj)
qed

text \<open>
  C4. For a summary whose \<^verbatim>\<open>hasCriticalOrHigh\<close> flag agrees with its counts, ship
  readiness answers \<^verbatim>\<open>safeToShip\<close> exactly when the critical and the high count are
  both zero, whatever the other counts are. The reason is the text of exactly one of three
  branches: no findings at all; no critical or high finding but some finding, with the
  moderate and low counts in the text; some critical or high finding, with the critical
  and high counts in the text. The three texts are pairwise different, and the text of
  the second and of the third branch determines the two counts it quotes.
\<close>

theorem C4_ship_readiness:
  assumes "hasCriticalOrHigh s = (critical (counts s) > 0 \<or> high (counts s) > 0)"
  shows "safeToShip (shipReadinessOf s) = (critical (counts s) = 0 \<and> high (counts s) = 0)
    \<and> reason (shipReadinessOf s) =
        (if critical (counts s) = 0 \<and> high (counts s) = 0 then
           (if totalVulnerabilities s = 0 then reason_none
            else reason_minor (moderate (counts s)) (low (counts s)))
         else reason_blocking (critical (counts s)) (high (counts s)))
    \<and> reason_none \<noteq> reason_minor m l
    \<and> reason_none \<noteq> reason_blocking c h
    \<and> reason_minor m l \<noteq> reason_blocking c h
    \<and> (reason_minor m l = reason_minor m' l' \<longrightarrow> m = m' \<and> l = l')
    \<and> (reason_blocking c h = reason_blocking c' h' \<longrightarrow> c = c' \<and> h = h')"
proof -
  have a: "safeToShip (shipReadinessOf s) = (critical (counts s) = 0 \<and> high (counts s) = 0)"
    using assms by (simp add: shipReadinessOf_def Let_def)
  have b: "reason (shipReadinessOf s) =
        (if critical (counts s) = 0 \<and> high (counts s) = 0 then
           (if totalVulnerabilities s = 0 then reason_none
            else reason_minor (moderate (counts s)) (low (counts s)))
         else reason_blocking (critical (counts s)) (high (counts s)))"
    using assms by (simp add: shipReadinessOf_def Let_def)
  show ?thesis
    using a b reason_none_not_minor [of m l] reason_none_not_blocking [of c h]
      reason_minor_not_blocking [of m l c h] reason_minor_inj [of m l m' l']
      reason_blocking_inj [of c h c' h']
    by blast
qed

theorem C4_ship_readiness_witness:
  "safeToShip (shipReadinessOf ex_node_summary) = False
   \<and> reason (shipReadinessOf ex_node_summary)
       = ''There are 1 critical and 2 high severity vulnerabilities. Do not ship until these are addressed.''"
proof -
  have h: "hasCriticalOrHigh ex_node_summary
      = (critical (counts ex_node_summary) > 0 \<or> high (counts ex_node_summary) > 0)"
    by (simp add: ex_node_summary_def)
  have r: "reason_blocking 1 2
      = ''There are 1 critical and 2 high severity vulnerabilities. Do not ship until these are addressed.''"
    by (simp add: reason_blocking_def string_of_nat.simps digit_char_def)
  from C4_ship_readiness [OF h, where m = 0 and l = 0 and c = 1 and h = 2 and m' = 0 and l' = 0
      and c' = 1 and h' = 2]
  have "safeToShip (shipReadinessOf ex_node_summary)
        = (critical (counts ex_node_summary) = 0 \<and> high (counts ex_node_summary) = 0)"
    and "reason (shipReadinessOf ex_node_summary) =
        (if critical (counts ex_node_summary) = 0 \<and> high (counts ex_node_summary) = 0 then
           (if totalVulnerabilities ex_node_summary = 0 then reason_none
            else reason_minor (moderate (counts ex_node_summary)) (low (counts ex_node_summary)))
         else reason_blocking (critical (counts ex_node_summary)) (high (counts ex_node_summary)))"
    by blast+
  then show ?thesis using r by (simp add: ex_node_summary_def)
qed


subsection \<open>Scan history and comparator\<close>

lemma severity_name_no_colon: "CHR '':'' \<notin> set (severity_name s)"
  by (cases s) simp_all

lemma severity_name_inj: "severity_name a = severity_name b \<longleftrightarrow> a = b"
  by (cases a; cases b) simp_all

lemma split_at_last_separator:
  assumes "c \<notin> set s" and "c \<notin> set s'" and "n @ c # s = n' @ c # s'"
  shows "n = n' \<and> s = s'"
proof -
  have t: "takeWhile (\<lambda>x. x \<noteq> c) (rev u @ c # w) = rev u" if "c \<notin> set u" for u w
    using that by (induction u rule: rev_induct) auto
  from assms(3) have "rev (n @ c # s) = rev (n' @ c # s')" by simp
  then have e: "rev s @ c # rev n = rev s' @ c # rev n'" by simp
  then have "takeWhile (\<lambda>x. x \<noteq> c) (rev s @ c # rev n)
      = takeWhile (\<lambda>x. x \<noteq> c) (rev s' @ c # rev n')" by simp
  then have "rev s = rev s'" using t [OF assms(1)] t [OF assms(2)] by simp
  then have s: "s = s'" by simp
  with assms(3) show ?thesis by simp
qed

lemma key_eq_iff: "key v = key w \<longleftrightarrow> name v = name w \<and> severity v = severity w"
proof
  assume e: "key v = key w"
  then have "name v @ CHR '':'' # severity_name (severity v)
      = name w @ CHR '':'' # severity_name (severity w)"
    by (simp add: key_def)
  from split_at_last_separator [OF severity_name_no_colon severity_name_no_colon this]
  show "name v = name w \<and> severity v = severity w"
    by (simp add: severity_name_inj)
next
  assume "name v = name w \<and> severity v = severity w"
  then show "key v = key w" by (simp add: key_def)
qed

lemma key_mem_iff:
  "key v \<in> set (map key xs) \<longleftrightarrow> (name v, severity v) \<in> set (map (\<lambda>w. (name w, severity w)) xs)"
  by (auto simp: key_eq_iff)

lemma diffVulnerabilities_pairs:
  "diffVulnerabilities b c =
     (filter (\<lambda>v. (name v, severity v) \<notin> set (map (\<lambda>w. (name w, severity w)) c)) b,
      filter (\<lambda>v. (name v, severity v) \<notin> set (map (\<lambda>w. (name w, severity w)) b)) c)"
  unfolding diffVulnerabilities_def Let_def key_mem_iff ..

lemma diffVulnerabilities_same: "diffVulnerabilities xs xs = ([], [])"
  by (simp add: diffVulnerabilities_def)

lemma slice_last_slice_last: "slice_last n (slice_last n xs @ ys) = slice_last n (xs @ ys)"
proof (cases "n \<le> length xs")
  case True
  then show ?thesis by (simp add: slice_last_def add.commute)
next
  case False
  then show ?thesis by (simp add: slice_last_def)
qed

lemma length_slice_last: "length (slice_last n xs) = min n (length xs)"
  by (simp add: slice_last_def)

lemma compare_store:
  "snd (compareScansOverTime now new_id store k s opts) =
     store(k \<mapsto> slice_last MAX_SCANS_PER_REPO
       (history store k @
          [\<lparr>scan_id = new_id, scan_repoId = k, scan_ref = opt_ref opts,
            scan_subpath = opt_subpath opts, scannedAt = now, scan_summary = s,
            projectType = opt_projectType opts\<rparr>]))"
  by (simp add: compareScansOverTime_def Let_def split: option.splits)

lemma run_call_store:
  "run_call store c =
     store(call_repoId c \<mapsto>
       slice_last MAX_SCANS_PER_REPO (history store (call_repoId c) @ [saved_scan c]))"
  by (simp add: run_call_def compare_store saved_scan_def)

lemma history_run_call:
  "history (run_call store c) k =
     (if k = call_repoId c
      then slice_last MAX_SCANS_PER_REPO (history store k @ [saved_scan c])
      else history store k)"
  by (simp add: run_call_store history_def)

lemma run_calls_other: "filter (\<lambda>c. call_repoId c = k) cs = [] \<Longrightarrow> run_calls store cs k = store k"
proof (induction cs arbitrary: store)
  case Nil
  then show ?case by (simp add: run_calls_def)
next
  case (Cons c cs)
  from Cons.prems have ne: "call_repoId c \<noteq> k" and rest: "filter (\<lambda>c. call_repoId c = k) cs = []"
    by (auto split: if_splits)
  have "run_calls store (c # cs) k = run_calls (run_call store c) cs k"
    by (simp add: run_calls_def)
  also have "\<dots> = run_call store c k" using Cons.IH [OF rest] .
  also have "\<dots> = store k" using ne by (simp add: run_call_store)
  finally show ?case .
qed

lemma run_calls_history:
  "filter (\<lambda>c. call_repoId c = k) cs \<noteq> [] \<Longrightarrow>
     run_calls store cs k =
       Some (slice_last MAX_SCANS_PER_REPO
               (history store k @ map saved_scan (filter (\<lambda>c. call_repoId c = k) cs)))"
proof (induction cs arbitrary: store)
  case Nil
  then show ?case by simp
next
  case (Cons c cs)
  let ?f = "filter (\<lambda>c. call_repoId c = k)"
  have step: "run_calls store (c # cs) k = run_calls (run_call store c) cs k"
    by (simp add: run_calls_def)
  show ?case
  proof (cases "?f cs = []")
    case True
    with Cons.prems have k: "call_repoId c = k" by (auto split: if_splits)
    have "run_calls store (c # cs) k = run_call store c k"
      unfolding step using run_calls_other [OF True] .
    then show ?thesis using True k by (simp add: run_call_store)
  next
    case False
    have "run_calls store (c # cs) k =
        Some (slice_last MAX_SCANS_PER_REPO (history (run_call store c) k @ map saved_scan (?f cs)))"
      unfolding step using Cons.IH [OF False] .
    then show ?thesis
      by (simp add: history_run_call slice_last_slice_last)
  qed
qed

lemma string_of_int_0: "string_of_int 0 = ''0''"
  by (simp add: string_of_int_def string_of_nat.simps digit_char_def)

lemma history_after_compare:
  "history (snd (compareScansOverTime now new_id store k s opts)) k \<noteq> []
   \<and> scan_summary (last (history (snd (compareScansOverTime now new_id store k s opts)) k)) = s
   \<and> scannedAt (last (history (snd (compareScansOverTime now new_id store k s opts)) k)) = now"
  by (simp add: compare_store history_def slice_last_def MAX_SCANS_PER_REPO_def)

lemma compare_first:
  assumes "store k = None"
  shows "fst (compareScansOverTime now new_id store k cur opts) =
     \<lparr>res_repoId = k,
      baseline = \<lparr>snap_scannedAt = now, snap_counts = counts cur,
                   snap_totalVulnerabilities = totalVulnerabilities cur\<rparr>,
      current = \<lparr>snap_scannedAt = now, snap_counts = counts cur,
                  snap_totalVulnerabilities = totalVulnerabilities cur\<rparr>,
      fixed = [], introduced = [],
      summary = ''First scan saved for **'' @ k @ ''**. Total: ''
        @ string_of_nat (totalVulnerabilities cur) @ '' vulnerability(ies). ''
        @ ''Run this tool again after making changes to compare over time.'',
      isFirstScan = Some True\<rparr>"
  using assms by (simp add: compareScansOverTime_def history_def Let_def)

lemma compare_next:
  assumes "history store k \<noteq> []"
  shows "fixed (fst (compareScansOverTime now new_id store k cur opts))
       = fst (diffVulnerabilities (vulnerabilities (scan_summary (last (history store k))))
                (vulnerabilities cur))"
    and "introduced (fst (compareScansOverTime now new_id store k cur opts))
       = snd (diffVulnerabilities (vulnerabilities (scan_summary (last (history store k))))
                (vulnerabilities cur))"
    and "baseline (fst (compareScansOverTime now new_id store k cur opts))
       = \<lparr>snap_scannedAt = scannedAt (last (history store k)),
          snap_counts = counts (scan_summary (last (history store k))),
          snap_totalVulnerabilities = totalVulnerabilities (scan_summary (last (history store k)))\<rparr>"
    and "current (fst (compareScansOverTime now new_id store k cur opts))
       = \<lparr>snap_scannedAt = now, snap_counts = counts cur,
          snap_totalVulnerabilities = totalVulnerabilities cur\<rparr>"
    and "isFirstScan (fst (compareScansOverTime now new_id store k cur opts)) = None"
  using assms by (simp_all add: compareScansOverTime_def Let_def)

lemma compare_same_summary:
  assumes "history store k \<noteq> []" and "scan_summary (last (history store k)) = cur"
  shows "summary (fst (compareScansOverTime now new_id store k cur opts))
       = ''Compared **'' @ k @ ''**: baseline '' @ scannedAt (last (history store k))
         @ '' '' @ [CHR 0xE2, CHR 0x86, CHR 0x92] @ '' current '' @ now
         @ ''. Total change: +0 vulnerability(ies).''"
  using assms
  by (simp add: compareScansOverTime_def Let_def diffVulnerabilities_same string_of_int_0)

text \<open>
  C5. A call of \<^verbatim>\<open>compareScansOverTime\<close> on a key that the store does not hold returns
  \<^verbatim>\<open>isFirstScan = true\<close>, empty \<^verbatim>\<open>fixed\<close> and \<^verbatim>\<open>introduced\<close> lists and a baseline
  equal to the current snapshot. On a key with a non-empty history it compares the last
  saved scan with the current summary by the pair of package name and severity alone:
  \<^verbatim>\<open>fixed\<close> holds the baseline findings whose pair no current finding has, and
  \<^verbatim>\<open>introduced\<close> the current findings whose pair no baseline finding has. A second call
  with the summary of the first returns empty lists and a total change of 0.
\<close>

theorem C5_compare_scans:
  "(store k = None \<longrightarrow>
      isFirstScan (fst (compareScansOverTime now i store k cur opts)) = Some True
      \<and> fixed (fst (compareScansOverTime now i store k cur opts)) = []
      \<and> introduced (fst (compareScansOverTime now i store k cur opts)) = []
      \<and> baseline (fst (compareScansOverTime now i store k cur opts))
          = current (fst (compareScansOverTime now i store k cur opts))
      \<and> current (fst (compareScansOverTime now i store k cur opts))
          = \<lparr>snap_scannedAt = now, snap_counts = counts cur,
             snap_totalVulnerabilities = totalVulnerabilities cur\<rparr>)
   \<and> (store k = Some l \<and> l \<noteq> [] \<longrightarrow>
      isFirstScan (fst (compareScansOverTime now i store k cur opts)) = None
      \<and> baseline (fst (compareScansOverTime now i store k cur opts))
          = \<lparr>snap_scannedAt = scannedAt (last l), snap_counts = counts (scan_summary (last l)),
             snap_totalVulnerabilities = totalVulnerabilities (scan_summary (last l))\<rparr>
      \<and> fixed (fst (compareScansOverTime now i store k cur opts))
          = filter (\<lambda>v. (name v, severity v)
                          \<notin> set (map (\<lambda>w. (name w, severity w)) (vulnerabilities cur)))
              (vulnerabilities (scan_summary (last l)))
      \<and> introduced (fst (compareScansOverTime now i store k cur opts))
          = filter (\<lambda>v. (name v, severity v)
                          \<notin> set (map (\<lambda>w. (name w, severity w))
                                   (vulnerabilities (scan_summary (last l)))))
              (vulnerabilities cur))
   \<and> (store k = None \<longrightarrow>
      fixed (fst (compareScansOverTime now2 i2
                    (snd (compareScansOverTime now i store k cur opts)) k cur opts2)) = []
      \<and> introduced (fst (compareScansOverTime now2 i2
                    (snd (compareScansOverTime now i store k cur opts)) k cur opts2)) = []
      \<and> int (snap_totalVulnerabilities (current (fst (compareScansOverTime now2 i2
                    (snd (compareScansOverTime now i store k cur opts)) k cur opts2))))
        - int (snap_totalVulnerabilities (baseline (fst (compareScansOverTime now2 i2
                    (snd (compareScansOverTime now i store k cur opts)) k cur opts2)))) = 0
      \<and> summary (fst (compareScansOverTime now2 i2
                    (snd (compareScansOverTime now i store k cur opts)) k cur opts2))
          = ''Compared **'' @ k @ ''**: baseline '' @ now @ '' ''
            @ [CHR 0xE2, CHR 0x86, CHR 0x92] @ '' current '' @ now2
            @ ''. Total change: +0 vulnerability(ies).'')"
proof (intro conjI impI)
  assume n: "store k = None"
  note f = compare_first [where store = store and k = k and now = now and new_id = i
      and cur = cur and opts = opts, OF n]
  show "isFirstScan (fst (compareScansOverTime now i store k cur opts)) = Some True"
    and "fixed (fst (compareScansOverTime now i store k cur opts)) = []"
    and "introduced (fst (compareScansOverTime now i store k cur opts)) = []"
    and "baseline (fst (compareScansOverTime now i store k cur opts))
          = current (fst (compareScansOverTime now i store k cur opts))"
    and "current (fst (compareScansOverTime now i store k cur opts))
          = \<lparr>snap_scannedAt = now, snap_counts = counts cur,
             snap_totalVulnerabilities = totalVulnerabilities cur\<rparr>"
    by (simp_all add: f)
next
  assume "store k = Some l \<and> l \<noteq> []"
  then have h: "history store k = l" and ne: "history store k \<noteq> []"
    by (simp_all add: history_def)
  note c = compare_next [OF ne, of now i cur opts]
  show "isFirstScan (fst (compareScansOverTime now i store k cur opts)) = None"
    by (rule c(5))
  show "baseline (fst (compareScansOverTime now i store k cur opts))
          = \<lparr>snap_scannedAt = scannedAt (last l), snap_counts = counts (scan_summary (last l)),
             snap_totalVulnerabilities = totalVulnerabilities (scan_summary (last l))\<rparr>"
    using c(3) by (simp only: h)
  show "fixed (fst (compareScansOverTime now i store k cur opts))
          = filter (\<lambda>v. (name v, severity v)
                          \<notin> set (map (\<lambda>w. (name w, severity w)) (vulnerabilities cur)))
              (vulnerabilities (scan_summary (last l)))"
    using c(1) by (simp only: h diffVulnerabilities_pairs fst_conv)
  show "introduced (fst (compareScansOverTime now i store k cur opts))
          = filter (\<lambda>v. (name v, severity v)
                          \<notin> set (map (\<lambda>w. (name w, severity w))
                                   (vulnerabilities (scan_summary (last l)))))
              (vulnerabilities cur)"
    using c(2) by (simp only: h diffVulnerabilities_pairs snd_conv)
next
  let ?st = "snd (compareScansOverTime now i store k cur opts)"
  note a = history_after_compare [of now i store k cur opts]
  from a have ne: "history ?st k \<noteq> []" and s: "scan_summary (last (history ?st k)) = cur"
    and t: "scannedAt (last (history ?st k)) = now"
    by simp_all
  note c = compare_next [OF ne, of now2 i2 cur opts2]
  show "fixed (fst (compareScansOverTime now2 i2 ?st k cur opts2)) = []"
    using c(1) by (simp add: s diffVulnerabilities_same)
  show "introduced (fst (compareScansOverTime now2 i2 ?st k cur opts2)) = []"
    using c(2) by (simp add: s diffVulnerabilities_same)
  show "int (snap_totalVulnerabilities (current (fst (compareScansOverTime now2 i2 ?st k cur opts2))))
        - int (snap_totalVulnerabilities (baseline (fst (compareScansOverTime now2 i2 ?st k cur opts2)))) = 0"
    using c(3) c(4) by (simp add: s)
  show "summary (fst (compareScansOverTime now2 i2 ?st k cur opts2))
          = ''Compared **'' @ k @ ''**: baseline '' @ now @ '' ''
            @ [CHR 0xE2, CHR 0x86, CHR 0x92] @ '' current '' @ now2
            @ ''. Total change: +0 vulnerability(ies).''"
    using compare_same_summary [OF ne s, of now2 i2 opts2] by (simp add: t)
qed

theorem C5_compare_scans_witness:
  "isFirstScan (fst (compareScansOverTime ''t1'' ''scan-1'' Map.empty ''acme/widgets''
       ex_node_summary no_options)) = Some True
   \<and> summary (fst (compareScansOverTime ''t2'' ''scan-2''
       (snd (compareScansOverTime ''t1'' ''scan-1'' Map.empty ''acme/widgets'' ex_node_summary
          no_options)) ''acme/widgets'' ex_node_summary no_options))
      = ''Compared **acme/widgets**: baseline t1 '' @ [CHR 0xE2, CHR 0x86, CHR 0x92]
        @ '' current t2. Total change: +0 vulnerability(ies).''
   \<and> fixed (fst (compareScansOverTime ''t2'' ''scan-2'' [''acme/widgets'' \<mapsto> [ex_scan]]
       ''acme/widgets'' empty_summary no_options)) = vulnerabilities ex_node_summary
   \<and> introduced (fst (compareScansOverTime ''t2'' ''scan-2'' [''acme/widgets'' \<mapsto> [ex_scan]]
       ''acme/widgets'' empty_summary no_options)) = []"
proof -
  have n: "(Map.empty :: scanStore) ''acme/widgets'' = None" by simp
  have s: "[''acme/widgets'' \<mapsto> [ex_scan]] ''acme/widgets'' = Some [ex_scan] \<and> [ex_scan] \<noteq> []"
    by simp
  from C5_compare_scans [of Map.empty "''acme/widgets''" "''t1''" "''scan-1''" ex_node_summary
      no_options "[]" "''t2''" "''scan-2''" no_options] n
  have a: "isFirstScan (fst (compareScansOverTime ''t1'' ''scan-1'' Map.empty ''acme/widgets''
       ex_node_summary no_options)) = Some True"
    and b: "summary (fst (compareScansOverTime ''t2'' ''scan-2''
       (snd (compareScansOverTime ''t1'' ''scan-1'' Map.empty ''acme/widgets'' ex_node_summary
          no_options)) ''acme/widgets'' ex_node_summary no_options))
      = ''Compared **acme/widgets**: baseline t1 '' @ [CHR 0xE2, CHR 0x86, CHR 0x92]
        @ '' current t2. Total change: +0 vulnerability(ies).''"
    by simp_all
  from C5_compare_scans [of "[''acme/widgets'' \<mapsto> [ex_scan]]" "''acme/widgets''" "''t2''"
      "''scan-2''" empty_summary no_options "[ex_scan]" "''t3''" "''scan-3''" no_options] s
  have c: "fixed (fst (compareScansOverTime ''t2'' ''scan-2'' [''acme/widgets'' \<mapsto> [ex_scan]]
       ''acme/widgets'' empty_summary no_options)) = vulnerabilities ex_node_summary"
    and d: "introduced (fst (compareScansOverTime ''t2'' ''scan-2'' [''acme/widgets'' \<mapsto> [ex_scan]]
       ''acme/widgets'' empty_summary no_options)) = []"
    by (simp_all add: ex_scan_def empty_summary_def)
  from a b c d show ?thesis by (intro conjI)
qed

lemma history_bounded_run_call:
  "length (history store k) \<le> MAX_SCANS_PER_REPO \<Longrightarrow>
     length (history (run_call store c) k) \<le> MAX_SCANS_PER_REPO"
  by (simp add: history_run_call length_slice_last)

lemma history_bounded_run_calls:
  "(\<forall>k. length (history store k) \<le> MAX_SCANS_PER_REPO) \<Longrightarrow>
     length (history (run_calls store cs) k) \<le> MAX_SCANS_PER_REPO"
proof (induction cs arbitrary: store k)
  case Nil
  then show ?case by (simp add: run_calls_def)
next
  case (Cons c cs)
  have "\<forall>k. length (history (run_call store c) k) \<le> MAX_SCANS_PER_REPO"
    using Cons.prems by (simp add: history_bounded_run_call)
  from Cons.IH [OF this] show ?case by (simp add: run_calls_def)
qed

text \<open>
  C6. The history of a key never holds more than 20 scans: one call leaves at most 20, and
  any sequence of calls keeps every history within 20. Eviction is first in, first out:
  after any calls from the empty store the history of a key is the last 20 scans saved
  for it, in order; after 25 calls on one key these are the scans of calls 6 to 25.
\<close>

theorem C6_history_bounded_fifo:
  "MAX_SCANS_PER_REPO = 20
   \<and> length (history (snd (compareScansOverTime now i store k s opts)) k) \<le> 20
   \<and> ((\<forall>k'. length (history store k') \<le> 20) \<longrightarrow> length (history (run_calls store cs) k) \<le> 20)
   \<and> length (history (run_calls Map.empty cs) k) \<le> 20
   \<and> (filter (\<lambda>c. call_repoId c = k) cs \<noteq> [] \<longrightarrow>
        run_calls Map.empty cs k
          = Some (slice_last 20 (map saved_scan (filter (\<lambda>c. call_repoId c = k) cs))))
   \<and> (length (filter (\<lambda>c. call_repoId c = k) cs) = 25 \<longrightarrow>
        run_calls Map.empty cs k
          = Some (drop 5 (map saved_scan (filter (\<lambda>c. call_repoId c = k) cs)))
        \<and> length (history (run_calls Map.empty cs) k) = 20)"
proof -
  let ?f = "filter (\<lambda>c. call_repoId c = k) cs"
  have m: "MAX_SCANS_PER_REPO = 20" by (simp add: MAX_SCANS_PER_REPO_def)
  have one: "length (history (snd (compareScansOverTime now i store k s opts)) k) \<le> 20"
    by (simp add: compare_store history_def length_slice_last m)
  have inv: "length (history (run_calls store cs) k) \<le> 20" if "\<forall>k'. length (history store k') \<le> 20"
    using history_bounded_run_calls [of store cs k] that by (simp add: m)
  have emp: "length (history (run_calls Map.empty cs) k) \<le> 20"
    using history_bounded_run_calls [of Map.empty cs k] by (simp add: m history_def)
  have fifo: "run_calls Map.empty cs k = Some (slice_last 20 (map saved_scan ?f))" if "?f \<noteq> []"
    using run_calls_history [OF that, of Map.empty] by (simp add: m history_def)
  have tf: "run_calls Map.empty cs k = Some (drop 5 (map saved_scan ?f))
      \<and> length (history (run_calls Map.empty cs) k) = 20" if l: "length ?f = 25"
  proof -
    from l have "?f \<noteq> []" by auto
    from fifo [OF this] l show ?thesis by (simp add: slice_last_def history_def)
  qed
  from m one inv emp fifo tf show ?thesis by blast
qed

theorem C6_history_bounded_fifo_witness:
  "run_calls Map.empty (map ex_call [0..<25]) ''acme/widgets''
     = Some (map (saved_scan \<circ> ex_call) [5..<25])
   \<and> length (history (run_calls Map.empty (map ex_call [0..<25])) ''acme/widgets'') = 20"
proof -
  have f: "filter (\<lambda>c. call_repoId c = ''acme/widgets'') (map ex_call [0..<25]) = map ex_call [0..<25]"
    by (simp add: filter_map o_def ex_call_def)
  have l: "length (filter (\<lambda>c. call_repoId c = ''acme/widgets'') (map ex_call [0..<25])) = 25"
    unfolding f by simp
  have d: "drop 5 (map saved_scan (map ex_call [0..<25])) = map (saved_scan \<circ> ex_call) [5..<25]"
    by (simp add: drop_map)
  from C6_history_bounded_fifo [of "''t''" "''scan-0''" Map.empty "''acme/widgets''" empty_summary
      no_options "map ex_call [0..<25]"] l
  have "run_calls Map.empty (map ex_call [0..<25]) ''acme/widgets''
      = Some (drop 5 (map saved_scan
          (filter (\<lambda>c. call_repoId c = ''acme/widgets'') (map ex_call [0..<25]))))
    \<and> length (history (run_calls Map.empty (map ex_call [0..<25])) ''acme/widgets'') = 20"
    by blast
  then show ?thesis unfolding f d .
qed

subsection \<open>Upgrade suggestions\<close>

lemma package_suggestion_of: "package (suggestion_of p v) = name v"
  by (simp add: suggestion_of_def Let_def)

lemma target_suggestion_of:
  "target (suggestion_of p v) = (case fixAvailable v of Some (FixVersion s) \<Rightarrow> s | _ \<Rightarrow> ''latest'')"
  by (simp add: suggestion_of_def Let_def)

lemma foldl_suggest_step:
  "foldl (suggest_step p) (sugs, seen) vs =
     (sugs @ map (suggestion_of p) (first_fixes seen vs), seen \<union> name ` set (first_fixes seen vs))"
proof (induction vs arbitrary: sugs seen)
  case Nil
  then show ?case by simp
next
  case (Cons v vs)
  show ?case
  proof (cases "\<not> truthy_fix (fixAvailable v) \<or> name v \<in> seen")
    case True
    then have "suggest_step p (sugs, seen) v = (sugs, seen)" by (simp add: suggest_step_def)
    with True Cons.IH [of sugs seen] show ?thesis by simp
  next
    case False
    then have "suggest_step p (sugs, seen) v = (sugs @ [suggestion_of p v], insert (name v) seen)"
      by (simp add: suggest_step_def)
    with False Cons.IH [of "sugs @ [suggestion_of p v]" "insert (name v) seen"] show ?thesis
      by simp
  qed
qed

lemma first_fixes_names:
  "name ` set (first_fixes seen vs) = name ` {v \<in> set vs. truthy_fix (fixAvailable v)} - seen"
  by (induction vs arbitrary: seen) auto

lemma first_fixes_distinct: "distinct (map name (first_fixes seen vs))"
proof (induction vs arbitrary: seen)
  case Nil
  then show ?case by simp
next
  case (Cons v vs)
  have "name v \<notin> name ` set (first_fixes (insert (name v) seen) vs)"
    unfolding first_fixes_names by simp
  with Cons show ?case by simp
qed

lemma first_fixes_find:
  "v \<in> set (first_fixes seen vs) \<Longrightarrow>
     find (\<lambda>w. name w = name v \<and> truthy_fix (fixAvailable w)) vs = Some v"
proof (induction vs arbitrary: seen)
  case Nil
  then show ?case by simp
next
  case (Cons a vs)
  show ?case
  proof (cases "\<not> truthy_fix (fixAvailable a) \<or> name a \<in> seen")
    case True
    with Cons.prems have m: "v \<in> set (first_fixes seen vs)" by simp
    then have "name v \<in> name ` set (first_fixes seen vs)" by simp
    then have "name v \<notin> seen" unfolding first_fixes_names by simp
    with True have "\<not> (name a = name v \<and> truthy_fix (fixAvailable a))" by auto
    with Cons.IH [OF m] show ?thesis by auto
  next
    case False
    show ?thesis
    proof (cases "v = a")
      case True
      with False show ?thesis by simp
    next
      case ne: False
      with False Cons.prems have m: "v \<in> set (first_fixes (insert (name a) seen) vs)" by simp
      then have "name v \<in> name ` set (first_fixes (insert (name a) seen) vs)" by simp
      then have "name v \<noteq> name a" unfolding first_fixes_names by auto
      with Cons.IH [OF m] show ?thesis by simp
    qed
  qed
qed

lemma first_fixes_filter:
  "(\<And>v. truthy_fix (fixAvailable v) \<Longrightarrow> P v) \<Longrightarrow>
     first_fixes seen (filter P vs) = first_fixes seen vs"
  by (induction vs arbitrary: seen) auto

lemma set_js_sort: "set (js_sort cmp xs) = set xs"
  using mset_js_sort [of cmp xs] by (metis set_mset_mset)

lemma suggestions_eq:
  "suggestions (upgradeSuggestionsOf p audit) =
     js_sort (\<lambda>a b. by_score_desc (severity_u a) (severity_u b))
       (map (suggestion_of p) (first_fixes {} (vulnerabilities audit)))"
  by (simp add: upgradeSuggestionsOf_def Let_def foldl_suggest_step)

lemma ex_upgrade_run:
  "suggestions (upgradeSuggestionsOf False ex_upgrade_audit) =
     [\<lparr>package = ''express'', current_u = ''unknown'', target = ''latest'', severity_u = Critical,
       action = ''npm install express@latest'', isSemverCompatible = None\<rparr>,
      \<lparr>package = ''lodash'', current_u = ''unknown'', target = ''4.17.21'', severity_u = Low,
       action = ''npm install lodash@4.17.21'', isSemverCompatible = None\<rparr>]"
  by (simp add: upgradeSuggestionsOf_def ex_upgrade_audit_def mk_summary_def mk_vuln_def
      suggest_step_def suggestion_of_def js_sort_def by_score_desc_def Let_def)

text \<open>
  C7. The upgrade suggestions hold at most one entry per package name and are sorted with
  severity scores never increasing. Every entry is the suggestion for the first finding
  of its package that has a fix, its target is the fix version string of that finding, or
  \<^verbatim>\<open>latest\<close> when the fix is only the flag \<^verbatim>\<open>true\<close>, and every package with such a
  finding has an entry. Findings whose fix is absent or \<^verbatim>\<open>false\<close> are skipped: removing
  them from the summary does not change the suggestions. A finding has a fix when
  \<^verbatim>\<open>fixAvailable\<close> is truthy (the flag \<^verbatim>\<open>true\<close> or a non-empty version string).
\<close>

theorem C7_upgrade_suggestions:
  "distinct (map package (suggestions (upgradeSuggestionsOf p audit)))
   \<and> sorted_wrt (\<lambda>a b. SEVERITY_SCORE (severity_u a) \<ge> SEVERITY_SCORE (severity_u b))
        (suggestions (upgradeSuggestionsOf p audit))
   \<and> (\<forall>u \<in> set (suggestions (upgradeSuggestionsOf p audit)).
        \<exists>v. find (\<lambda>w. name w = package u \<and> truthy_fix (fixAvailable w)) (vulnerabilities audit)
              = Some v
            \<and> u = suggestion_of p v
            \<and> target u = (case fixAvailable v of Some (FixVersion s) \<Rightarrow> s | _ \<Rightarrow> ''latest''))
   \<and> package ` set (suggestions (upgradeSuggestionsOf p audit))
       = name ` {v \<in> set (vulnerabilities audit). truthy_fix (fixAvailable v)}
   \<and> suggestions (upgradeSuggestionsOf p
        (audit\<lparr>vulnerabilities :=
           filter (\<lambda>v. fixAvailable v \<noteq> None \<and> fixAvailable v \<noteq> Some (FixFlag False))
             (vulnerabilities audit)\<rparr>))
       = suggestions (upgradeSuggestionsOf p audit)
   \<and> \<not> truthy_fix None \<and> \<not> truthy_fix (Some (FixFlag False))
   \<and> truthy_fix (Some (FixFlag True))
   \<and> truthy_fix (Some (FixVersion ver)) = (ver \<noteq> [])"
proof -
  let ?vs = "vulnerabilities audit"
  let ?ff = "first_fixes {} ?vs"
  let ?cmp = "\<lambda>a b. by_score_desc (severity_u a) (severity_u b)"
  let ?r = "suggestions (upgradeSuggestionsOf p audit)"
  have r: "?r = js_sort ?cmp (map (suggestion_of p) ?ff)" by (rule suggestions_eq)
  have "mset (map package ?r) = mset (map package (map (suggestion_of p) ?ff))"
    unfolding r by (simp add: mset_js_sort multiset.map_comp)
  also have "map package (map (suggestion_of p) ?ff) = map name ?ff"
    by (simp add: package_suggestion_of)
  finally have "mset (map package ?r) = mset (map name ?ff)" .
  then have d: "distinct (map package ?r)"
    using first_fixes_distinct [of "{}" ?vs] by (metis mset_eq_imp_distinct_iff)
  have s: "sorted_wrt (\<lambda>a b. SEVERITY_SCORE (severity_u a) \<ge> SEVERITY_SCORE (severity_u b)) ?r"
    unfolding r by (rule sorted_js_sort)
  have set_r: "set ?r = suggestion_of p ` set ?ff"
    unfolding r by (simp add: set_js_sort)
  have f: "\<forall>u \<in> set ?r.
        \<exists>v. find (\<lambda>w. name w = package u \<and> truthy_fix (fixAvailable w)) ?vs = Some v
            \<and> u = suggestion_of p v
            \<and> target u = (case fixAvailable v of Some (FixVersion s) \<Rightarrow> s | _ \<Rightarrow> ''latest'')"
  proof
    fix u assume "u \<in> set ?r"
    then obtain v where v: "v \<in> set ?ff" and u: "u = suggestion_of p v"
      unfolding set_r by blast
    from first_fixes_find [OF v]
    have "find (\<lambda>w. name w = package u \<and> truthy_fix (fixAvailable w)) ?vs = Some v"
      by (simp add: u package_suggestion_of)
    with u show "\<exists>v. find (\<lambda>w. name w = package u \<and> truthy_fix (fixAvailable w)) ?vs = Some v
            \<and> u = suggestion_of p v
            \<and> target u = (case fixAvailable v of Some (FixVersion s) \<Rightarrow> s | _ \<Rightarrow> ''latest'')"
      using target_suggestion_of [of p v] by blast
  qed
  have "package ` set ?r = name ` set ?ff"
    unfolding set_r by (simp add: image_image package_suggestion_of)
  then have n: "package ` set ?r = name ` {v \<in> set ?vs. truthy_fix (fixAvailable v)}"
    by (simp add: first_fixes_names)
  have k: "suggestions (upgradeSuggestionsOf p
        (audit\<lparr>vulnerabilities :=
           filter (\<lambda>v. fixAvailable v \<noteq> None \<and> fixAvailable v \<noteq> Some (FixFlag False)) ?vs\<rparr>)) = ?r"
  proof -
    have t: "fixAvailable v \<noteq> None \<and> fixAvailable v \<noteq> Some (FixFlag False)"
      if "truthy_fix (fixAvailable v)" for v :: Vulnerability
      using that by (cases "fixAvailable v") auto
    show ?thesis
      unfolding suggestions_eq using first_fixes_filter [of _ "{}" ?vs, OF t] by simp
  qed
  show ?thesis using d s f n k by simp
qed

theorem C7_upgrade_suggestions_witness:
  "suggestions (upgradeSuggestionsOf False ex_upgrade_audit) =
     [\<lparr>package = ''express'', current_u = ''unknown'', target = ''latest'', severity_u = Critical,
       action = ''npm install express@latest'', isSemverCompatible = None\<rparr>,
      \<lparr>package = ''lodash'', current_u = ''unknown'', target = ''4.17.21'', severity_u = Low,
       action = ''npm install lodash@4.17.21'', isSemverCompatible = None\<rparr>]
   \<and> distinct (map package (suggestions (upgradeSuggestionsOf False ex_upgrade_audit)))
   \<and> package ` set (suggestions (upgradeSuggestionsOf False ex_upgrade_audit))
       = {''express'', ''lodash''}"
proof -
  from C7_upgrade_suggestions [of False ex_upgrade_audit "''1.0''"]
  have d: "distinct (map package (suggestions (upgradeSuggestionsOf False ex_upgrade_audit)))"
    by blast
  have s: "package ` set (suggestions (upgradeSuggestionsOf False ex_upgrade_audit))
      = {''express'', ''lodash''}"
    by (simp add: ex_upgrade_run)
  from ex_upgrade_run d s show ?thesis by (intro conjI)
qed

subsection \<open>Target identity\<close>

lemma parse_url: "parseGitHubRepo ''https://github.com/acme/widgets.git'' = Inr (''acme'', ''widgets'')"
  by code_simp

lemma parse_host: "parseGitHubRepo ''github.com/acme/widgets'' = Inr (''acme'', ''widgets'')"
  by code_simp

lemma parse_short: "parseGitHubRepo ''acme/widgets'' = Inr (''acme'', ''widgets'')"
  by code_simp

lemma strip_frontend: "strip_slashes ''frontend/'' = ''frontend''"
  by code_simp

lemma getRepoId_remote:
  assumes "truthy (githubRepo opts) = Some spec" and "parseGitHubRepo spec = Inr (owner, repo)"
  shows "getRepoId cwd resolve opts =
     Inr (case truthy (map_option strip_slashes (subpath opts)) of
            Some sub \<Rightarrow> owner @ ''/'' @ repo @ '':'' @ sub
          | None \<Rightarrow> owner @ ''/'' @ repo)"
  using assms by (simp add: getRepoId_def Let_def split: option.splits)

lemma getRepoId_remote_error:
  assumes "truthy (githubRepo opts) = Some spec" and "parseGitHubRepo spec = Inl e"
  shows "getRepoId cwd resolve opts = Inl e"
  using assms by (simp add: getRepoId_def)

lemma getRepoId_local:
  assumes "truthy (githubRepo opts) = None"
  shows "getRepoId cwd resolve opts =
     Inr (''local:'' @ (case truthy (projectPath opts) of Some p \<Rightarrow> resolve p | None \<Rightarrow> cwd))"
  using assms by (simp add: getRepoId_def Let_def)

lemma getRepoId_ref: "getRepoId cwd resolve (opts\<lparr>ref := r\<rparr>) = getRepoId cwd resolve opts"
  by (auto simp: getRepoId_def Let_def split: option.splits sum.splits prod.splits)

lemma getRepoId_acme:
  assumes "parseGitHubRepo spec = Inr (''acme'', ''widgets'')" and "spec \<noteq> []"
  shows "getRepoId cwd resolve \<lparr>githubRepo = Some spec, ref = r, subpath = None, projectPath = pp\<rparr>
           = Inr ''acme/widgets''"
    and "getRepoId cwd resolve
           \<lparr>githubRepo = Some spec, ref = r, subpath = Some ''frontend/'', projectPath = pp\<rparr>
           = Inr ''acme/widgets:frontend''"
  using assms by (simp_all add: getRepoId_def truthy_def strip_frontend)

text \<open>
  C9. \<^verbatim>\<open>getRepoId\<close> is a function of its options, the working directory and
  \<^verbatim>\<open>path.resolve\<close>. The remote specs \<^verbatim>\<open>https://github.com/acme/widgets.git\<close>,
  \<^verbatim>\<open>github.com/acme/widgets\<close> and \<^verbatim>\<open>acme/widgets\<close> all give the key
  \<^verbatim>\<open>acme/widgets\<close>, and with the subpath \<^verbatim>\<open>frontend/\<close> the key
  \<^verbatim>\<open>acme/widgets:frontend\<close>. The ref never changes the key. A remote spec that parses
  to an owner and a repo gives \<^verbatim>\<open>owner/repo\<close>, or \<^verbatim>\<open>owner/repo:subpath\<close> when the subpath,
  with a leading and a trailing slash removed, is not empty. Without a remote spec the key
  is \<^verbatim>\<open>local:\<close> followed by the resolved project path, or by the working directory
  when no project path is given.
\<close>

theorem C9_target_identity:
  "getRepoId cwd resolve
      \<lparr>githubRepo = Some ''https://github.com/acme/widgets.git'', ref = r, subpath = None,
       projectPath = pp\<rparr> = Inr ''acme/widgets''
   \<and> getRepoId cwd resolve
      \<lparr>githubRepo = Some ''github.com/acme/widgets'', ref = r, subpath = None,
       projectPath = pp\<rparr> = Inr ''acme/widgets''
   \<and> getRepoId cwd resolve
      \<lparr>githubRepo = Some ''acme/widgets'', ref = r, subpath = None,
       projectPath = pp\<rparr> = Inr ''acme/widgets''
   \<and> getRepoId cwd resolve
      \<lparr>githubRepo = Some ''https://github.com/acme/widgets.git'', ref = r,
       subpath = Some ''frontend/'', projectPath = pp\<rparr> = Inr ''acme/widgets:frontend''
   \<and> getRepoId cwd resolve
      \<lparr>githubRepo = Some ''github.com/acme/widgets'', ref = r,
       subpath = Some ''frontend/'', projectPath = pp\<rparr> = Inr ''acme/widgets:frontend''
   \<and> getRepoId cwd resolve
      \<lparr>githubRepo = Some ''acme/widgets'', ref = r,
       subpath = Some ''frontend/'', projectPath = pp\<rparr> = Inr ''acme/widgets:frontend''
   \<and> getRepoId cwd resolve (opts\<lparr>ref := r\<rparr>) = getRepoId cwd resolve opts
   \<and> (truthy (githubRepo opts) = Some spec \<and> parseGitHubRepo spec = Inr (owner, repo) \<longrightarrow>
        getRepoId cwd resolve opts =
          Inr (case truthy (map_option strip_slashes (subpath opts)) of
                 Some sub \<Rightarrow> owner @ ''/'' @ repo @ '':'' @ sub
               | None \<Rightarrow> owner @ ''/'' @ repo))
   \<and> (githubRepo opts = None \<and> projectPath opts = None \<longrightarrow>
        getRepoId cwd resolve opts = Inr (''local:'' @ cwd))
   \<and> (githubRepo opts = None \<and> projectPath opts = Some p \<and> p \<noteq> [] \<longrightarrow>
        getRepoId cwd resolve opts = Inr (''local:'' @ resolve p))"
proof -
  have loc1: "getRepoId cwd resolve opts = Inr (''local:'' @ cwd)"
    if "githubRepo opts = None \<and> projectPath opts = None"
    using that by (simp add: getRepoId_local truthy_def)
  have loc2: "getRepoId cwd resolve opts = Inr (''local:'' @ resolve p)"
    if "githubRepo opts = None \<and> projectPath opts = Some p \<and> p \<noteq> []"
    using that by (simp add: getRepoId_local truthy_def)
  have rem: "getRepoId cwd resolve opts =
          Inr (case truthy (map_option strip_slashes (subpath opts)) of
                 Some sub \<Rightarrow> owner @ ''/'' @ repo @ '':'' @ sub
               | None \<Rightarrow> owner @ ''/'' @ repo)"
    if "truthy (githubRepo opts) = Some spec \<and> parseGitHubRepo spec = Inr (owner, repo)"
    using that by (simp add: getRepoId_remote)
  note url = getRepoId_acme [OF parse_url, where cwd = cwd and resolve = resolve and r = r
      and pp = pp, simplified]
  note host = getRepoId_acme [OF parse_host, where cwd = cwd and resolve = resolve and r = r
      and pp = pp, simplified]
  note short = getRepoId_acme [OF parse_short, where cwd = cwd and resolve = resolve and r = r
      and pp = pp, simplified]
  show ?thesis
    using url host short loc1 loc2 rem
      getRepoId_ref [where cwd = cwd and resolve = resolve and opts = opts and r = r]
    by (intro conjI impI) simp_all
qed

theorem C9_target_identity_witness:
  "getRepoId ''/home/dev/app'' (\<lambda>p. ''/home/dev/app/'' @ p)
      \<lparr>githubRepo = None, ref = Some ''main'', subpath = None, projectPath = Some ''svc''\<rparr>
     = Inr ''local:/home/dev/app/svc''
   \<and> getRepoId ''/home/dev/app'' (\<lambda>p. ''/home/dev/app/'' @ p)
      \<lparr>githubRepo = None, ref = None, subpath = None, projectPath = None\<rparr>
     = Inr ''local:/home/dev/app''
   \<and> getRepoId ''/home/dev/app'' (\<lambda>p. ''/home/dev/app/'' @ p)
      \<lparr>githubRepo = Some ''acme/widgets'', ref = Some ''v2'', subpath = Some ''/packages/ui/'',
       projectPath = None\<rparr>
     = Inr ''acme/widgets:packages/ui''"
proof -
  let ?res = "\<lambda>p. ''/home/dev/app/'' @ p"
  let ?a = "\<lparr>githubRepo = None, ref = Some ''main'', subpath = None, projectPath = Some ''svc''\<rparr>"
  let ?b = "\<lparr>githubRepo = None, ref = None, subpath = None, projectPath = None :: string option\<rparr>"
  let ?c = "\<lparr>githubRepo = Some ''acme/widgets'', ref = Some ''v2'', subpath = Some ''/packages/ui/'',
       projectPath = None\<rparr>"
  have s: "strip_slashes ''/packages/ui/'' = ''packages/ui''" by code_simp
  from C9_target_identity [where cwd = "''/home/dev/app''" and resolve = ?res and opts = ?a
      and p = "''svc''"]
  have a: "getRepoId ''/home/dev/app'' ?res ?a = Inr ''local:/home/dev/app/svc''" by simp
  from C9_target_identity [where cwd = "''/home/dev/app''" and resolve = ?res and opts = ?b]
  have b: "getRepoId ''/home/dev/app'' ?res ?b = Inr ''local:/home/dev/app''" by simp
  from C9_target_identity [where cwd = "''/home/dev/app''" and resolve = ?res and opts = ?c
      and spec = "''acme/widgets''" and owner = "''acme''" and repo = "''widgets''"] parse_short
  have c: "getRepoId ''/home/dev/app'' ?res ?c = Inr ''acme/widgets:packages/ui''"
    by (simp add: truthy_def s)
  from a b c show ?thesis by (intro conjI)
qed

end
